theory Spec2Isabelle
  imports Complex_Main "HOL-Library.Sublist" "HOL-Library.Log_Nat" "HOL-Library.Multiset"
begin

section \<open>Sales time-series analysis: data model\<close>

text \<open>
  The program of \<^verbatim>\<open>Sales_Analysis.py\<close> reads a CSV of time-stamped sales, resamples it
  at four calendar frequencies, decomposes every resampled series and prints a summary
  per resolution.

  A timestamp is parsed with the format \<^verbatim>\<open>%d-%m-%Y %H:%M\<close>, so it has minute
  resolution: it is modelled as the number of minutes since 1970-01-01 00:00. A value of
  the \<^verbatim>\<open>sales\<close> column is a 64-bit float; it is modelled as the rational number it
  stands for. Where the program adds sales values or multiplies by the threshold, the
  rounding of the float arithmetic is written out (\<open>round64\<close>). The decomposition is
  modelled in exact arithmetic. A missing value (NaN) of a decomposition component is
  \<open>None\<close>.
\<close>

type_synonym timestamp = int
type_synonym point = "timestamp \<times> rat"
type_synonym gappy_point = "timestamp \<times> rat option"

section \<open>Float arithmetic\<close>

text \<open>
  The result of a float operation is the exact result rounded to the nearest 64-bit
  float, a tie going to the float with the even significand. A float is
  \<open>m * 2 ^ q\<close> with \<open>\<bar>m\<bar> < 2 ^ 53\<close> and \<open>- 1074 \<le> q\<close>; \<open>float_exponent a\<close> is the
  \<open>e\<close> with \<open>2 ^ e \<le> a < 2 ^ (e + 1)\<close>. Overflow to infinity is not modelled: the
  rounded value of a number beyond the largest float is the number rounded to 53
  significant bits.
\<close>

definition round_half_even :: "rat \<Rightarrow> int" where
  "round_half_even y =
     (let f = \<lfloor>y\<rfloor>; d = y - of_int f in
      if d < 1 / 2 then f
      else if 1 / 2 < d then f + 1
      else if even f then f else f + 1)"

definition float_exponent :: "rat \<Rightarrow> int" where
  "float_exponent a =
     (let e = bitlen (fst (quotient_of a)) - bitlen (snd (quotient_of a))
      in if 2 powi e \<le> a then e else e - 1)"

definition round64 :: "rat \<Rightarrow> rat" where
  "round64 x =
     (if x = 0 then 0
      else let q = max (float_exponent \<bar>x\<bar> - 52) (- 1074)
           in sgn x * of_int (round_half_even (\<bar>x\<bar> / 2 powi q)) * 2 powi q)"

definition fadd :: "rat \<Rightarrow> rat \<Rightarrow> rat" where
  "fadd a b = round64 (a + b)"

definition fsub :: "rat \<Rightarrow> rat \<Rightarrow> rat" where
  "fsub a b = round64 (a - b)"

section \<open>Low and high sales periods\<close>

text \<open>
  \<^verbatim>\<open>int(x)\<close> of Python truncates towards zero.
\<close>

definition py_int :: "rat \<Rightarrow> int" where
  "py_int x = (if 0 \<le> x then \<lfloor>x\<rfloor> else \<lceil>x\<rceil>)"

text \<open>
  Positional slices \<^verbatim>\<open>s[:k]\<close> and \<^verbatim>\<open>s[j:]\<close>: a negative bound counts from the
  end, and a bound outside the series is clipped. The bound \<^verbatim>\<open>-0\<close> is \<^verbatim>\<open>0\<close>.
\<close>

definition slice_upto :: "'a list \<Rightarrow> int \<Rightarrow> 'a list" where
  "slice_upto xs k =
     (if 0 \<le> k then take (nat k) xs else take (length xs - nat (- k)) xs)"

definition slice_from :: "'a list \<Rightarrow> int \<Rightarrow> 'a list" where
  "slice_from xs j =
     (if 0 \<le> j then drop (nat j) xs else drop (length xs - nat (- j)) xs)"

text \<open>
  \<^verbatim>\<open>series.sort_values()\<close> orders the points by value, ascending. The model keeps
  points of equal value in their original order; the default sort of pandas does not
  promise an order among equal values, and the concrete series below have distinct
  values.
\<close>

definition sort_values :: "point list \<Rightarrow> point list" where
  "sort_values series = sort_key snd series"

text \<open>
  The number of points of a slice is \<^verbatim>\<open>int(len(sorted_series) * threshold)\<close>: the
  length becomes a float (exactly, for a length below \<open>2 ^ 53\<close>), the product is a float
  product, and \<^verbatim>\<open>int\<close> truncates it.
  \<^verbatim>\<open>
  def identify_low_high_sales(series, threshold=0.25):
      sorted_series = series.sort_values()
      low_sales = sorted_series[:int(len(sorted_series) * threshold)]
      high_sales = sorted_series[-int(len(sorted_series) * threshold):]
      return low_sales, high_sales
  \<close>
\<close>

definition identify_low_high_sales :: "point list \<Rightarrow> rat \<Rightarrow> point list \<times> point list" where
  "identify_low_high_sales series threshold =
     (let sorted_series = sort_values series;
          low_sales = slice_upto sorted_series
                        (py_int (round64 (of_nat (length sorted_series) * threshold)));
          high_sales = slice_from sorted_series
                         (- py_int (round64 (of_nat (length sorted_series) * threshold)))
      in (low_sales, high_sales))"

section \<open>Resampling\<close>

text \<open>
  The frequencies the program resamples at: \<^verbatim>\<open>'H'\<close>, \<^verbatim>\<open>'D'\<close>, \<^verbatim>\<open>'W'\<close> and
  \<^verbatim>\<open>'M'\<close> (hour, calendar day, week ending on Sunday, calendar month).
\<close>

datatype freq = Freq_H | Freq_D | Freq_W | Freq_M

text \<open>
  The calendar month of a timestamp, numbered \<open>12 * year + (month - 1)\<close>: the civil
  date of the day number, in the proleptic Gregorian calendar that pandas uses.
\<close>

definition month_number :: "timestamp \<Rightarrow> int" where
  "month_number t =
     (let z = t div 1440 + 719468;
          era = z div 146097;
          doe = z - era * 146097;
          yoe = (doe - doe div 1460 + doe div 36524 - doe div 146096) div 365;
          doy = doe - (365 * yoe + yoe div 4 - yoe div 100);
          mp = (5 * doy + 2) div 153;
          m = (if mp < 10 then mp + 3 else mp - 9);
          y = yoe + era * 400 + (if m \<le> 2 then 1 else 0)
      in y * 12 + (m - 1))"

text \<open>
  The bucket a timestamp falls into. Day 0 (1970-01-01) is a Thursday, so the weeks that
  run from Monday to Sunday start at the days \<open>d\<close> with \<open>(d + 3) mod 7 = 0\<close>.
\<close>

fun bucket_of :: "freq \<Rightarrow> timestamp \<Rightarrow> int" where
  "bucket_of Freq_H t = t div 60"
| "bucket_of Freq_D t = t div 1440"
| "bucket_of Freq_W t = (t div 1440 + 3) div 7"
| "bucket_of Freq_M t = month_number t"

text \<open>
  pandas adds the values of a group with Kahan's compensated summation: it keeps the
  running sum and a compensation for the rounding error of the last addition, and
  returns the running sum.
\<close>

definition kahan_step :: "rat \<times> rat \<Rightarrow> rat \<Rightarrow> rat \<times> rat" where
  "kahan_step acc val =
     (let y = fsub val (snd acc);
          t = fadd (fst acc) y
      in (t, fsub (fsub t (fst acc)) y))"

definition group_sum :: "rat list \<Rightarrow> rat" where
  "group_sum vs = fst (foldl kahan_step (0, 0) vs)"

text \<open>
  \<^verbatim>\<open>df.resample(freq).sum()\<close>: one row for every bucket from the bucket of the earliest
  timestamp to the bucket of the latest one, holding the sum of the values that fall
  into it (0 for a bucket with no value). pandas sorts the rows by timestamp (a stable
  sort) before it bins them, so the rows of the input may come in any order and may
  repeat a timestamp. A row of the result is labelled by the number of its bucket. An
  empty frame resamples to an empty one.
\<close>

definition bucket_sum :: "freq \<Rightarrow> point list \<Rightarrow> int \<Rightarrow> rat" where
  "bucket_sum f pts k =
     group_sum (map snd (filter (\<lambda>p. bucket_of f (fst p) = k) (sort_key fst pts)))"

definition resample_sum :: "freq \<Rightarrow> point list \<Rightarrow> point list" where
  "resample_sum f pts =
     (case map (\<lambda>p. bucket_of f (fst p)) pts of
        [] \<Rightarrow> []
      | k # ks \<Rightarrow> map (\<lambda>b. (b, bucket_sum f pts b)) [fold min ks k .. fold max ks k])"

text \<open>
  The total of a column of values, added from left to right in float arithmetic. (A
  library may add a long column in another order; the statements about totals below are
  about columns in which no addition rounds, and about a column of three values.)
\<close>

definition float_total :: "rat list \<Rightarrow> rat" where
  "float_total vs = foldl fadd 0 vs"

text \<open>
  The exceptions of the program. \<open>InvalidIndexType\<close> is the \<^verbatim>\<open>ValueError\<close> that
  \<^verbatim>\<open>resample_data\<close> raises; \<open>InsufficientData\<close> and \<open>DivisionByZero\<close> are the failures
  of the decomposition; \<open>EmptySeries\<close> is the \<^verbatim>\<open>ValueError\<close> of \<^verbatim>\<open>idxmax\<close> and
  \<^verbatim>\<open>idxmin\<close> on a series without values.
\<close>

datatype error = InvalidIndexType | InsufficientData | DivisionByZero | EmptySeries

text \<open>
  A loaded frame has the single value column \<^verbatim>\<open>sales\<close>. Its index is a
  \<^verbatim>\<open>DatetimeIndex\<close> when the timestamp column was parsed, and another index (here the
  positions of the rows) otherwise. A resampled frame also carries the frequency of its
  index.
\<close>

datatype frame = Datetime_frame "point list" | Other_frame "rat list"

record series =
  index_freq :: "freq option"
  points :: "point list"

text \<open>
  \<^verbatim>\<open>
  def resample_data(df, freq):
      if not isinstance(df.index, pd.DatetimeIndex):
          raise ValueError("The DataFrame index must be a DatetimeIndex.")
      return df.resample(freq).sum()
  \<close>
\<close>

fun resample_data :: "frame \<Rightarrow> freq \<Rightarrow> error + series" where
  "resample_data (Other_frame vs) f = Inl InvalidIndexType"
| "resample_data (Datetime_frame pts) f =
     Inr \<lparr>index_freq = Some f, points = resample_sum f pts\<rparr>"

section \<open>Seasonal decomposition\<close>

datatype model = Additive | Multiplicative

record decompose_result =
  observed :: "point list"
  trend :: "gappy_point list"
  seasonal :: "gappy_point list"
  resid :: "gappy_point list"

text \<open>
  Modelled from the spec: \<^verbatim>\<open>seasonal_decompose\<close> is the function of the statsmodels
  library, which is not part of the sources; the definitions from \<open>moving_average_at\<close> to
  \<open>seasonal_decompose\<close> follow the classical decomposition of section 4.2 of the
  specification.

  The trend is the centred moving average over a window of \<open>period\<close> points; for an even
  period the window has \<open>period + 1\<close> points and its two end points count half. The
  trend is missing at the first and the last \<open>period div 2\<close> positions.
\<close>

definition moving_average_at :: "nat \<Rightarrow> rat list \<Rightarrow> nat \<Rightarrow> rat option" where
  "moving_average_at period xs i =
     (let h = period div 2 in
      if i < h \<or> length xs \<le> i + h then None
      else if even period then
        Some ((xs ! (i - h) / 2 + sum_list (take (period - 1) (drop (i - h + 1) xs))
                 + xs ! (i + h) / 2) / of_nat period)
      else Some (sum_list (take period (drop (i - h) xs)) / of_nat period))"

definition centered_moving_average :: "nat \<Rightarrow> rat list \<Rightarrow> rat option list" where
  "centered_moving_average period xs = map (moving_average_at period xs) [0..<length xs]"

fun detrend :: "model \<Rightarrow> rat \<Rightarrow> rat option \<Rightarrow> rat option" where
  "detrend m x None = None"
| "detrend Additive x (Some t) = Some (x - t)"
| "detrend Multiplicative x (Some t) = Some (x / t)"

text \<open>
  The seasonal index: the detrended values are grouped by their position within the
  period, every group is averaged over the positions where the trend is defined, and
  the averages are normalised (they sum to zero in the additive model and average to
  one in the multiplicative model). The average of an empty group is missing, and a
  missing average makes the whole index missing.
\<close>

definition position_values :: "nat \<Rightarrow> rat option list \<Rightarrow> nat \<Rightarrow> rat list" where
  "position_values period ds j =
     List.map_filter (\<lambda>i. if i mod period = j then ds ! i else None) [0..<length ds]"

definition mean :: "rat list \<Rightarrow> rat option" where
  "mean vs = (if vs = [] then None else Some (sum_list vs / of_nat (length vs)))"

definition seasonal_mean :: "rat option list \<Rightarrow> nat \<Rightarrow> rat option list" where
  "seasonal_mean ds period = map (\<lambda>j. mean (position_values period ds j)) [0..<period]"

fun normalise :: "model \<Rightarrow> rat \<Rightarrow> rat \<Rightarrow> rat" where
  "normalise Additive c a = a - c"
| "normalise Multiplicative c a = a / c"

definition seasonal_index :: "model \<Rightarrow> rat option list \<Rightarrow> nat \<Rightarrow> rat option list" where
  "seasonal_index m ds period =
     (case those (seasonal_mean ds period) of
        None \<Rightarrow> replicate period None
      | Some avgs \<Rightarrow>
          (case mean avgs of
             None \<Rightarrow> []
           | Some c \<Rightarrow> map (\<lambda>a. Some (normalise m c a)) avgs))"

fun residual :: "model \<Rightarrow> rat \<Rightarrow> rat option \<Rightarrow> rat option \<Rightarrow> rat option" where
  "residual Additive x (Some t) (Some s) = Some (x - t - s)"
| "residual Multiplicative x (Some t) (Some s) = Some (x / (t * s))"
| "residual m x t s = None"

text \<open>
  The decomposition fails with \<open>InsufficientData\<close> unless \<open>2 \<le> period\<close> and the series
  has two full periods. In the multiplicative model a division by zero (by a trend
  value, by the average of the seasonal averages or by a seasonal index) is
  \<open>DivisionByZero\<close>. The four components share the index of the input.
\<close>

definition seasonal_decompose :: "point list \<Rightarrow> model \<Rightarrow> nat \<Rightarrow> error + decompose_result" where
  "seasonal_decompose x m period =
     (let xs = map snd x; ts = map fst x in
      if period < 2 \<or> length xs < 2 * period then Inl InsufficientData
      else
        let tr = centered_moving_average period xs;
            detrended = map2 (detrend m) xs tr;
            idx = seasonal_index m detrended period;
            seas = map (\<lambda>i. idx ! (i mod period)) [0..<length xs]
        in if m = Multiplicative \<and>
              (Some 0 \<in> set tr \<or> Some 0 \<in> set idx
               \<or> Option.bind (those (seasonal_mean detrended period)) mean = Some 0)
           then Inl DivisionByZero
           else Inr \<lparr>observed = x,
                     trend = zip ts tr,
                     seasonal = zip ts seas,
                     resid = zip ts (map (\<lambda>i. residual m (xs ! i) (tr ! i) (seas ! i))
                                       [0..<length xs])\<rparr>)"

text \<open>
  \<^verbatim>\<open>
  def decompose_series(series, model='additive', period=None):
      if period is None:
          period = 365 if series.index.freq == 'D' else 12
      return seasonal_decompose(series, model=model, period=period)
  \<close>
\<close>

definition decompose_series :: "series \<Rightarrow> model \<Rightarrow> nat option \<Rightarrow> error + decompose_result" where
  "decompose_series s m period =
     seasonal_decompose (points s) m
       (case period of
          None \<Rightarrow> (if index_freq s = Some Freq_D then 365 else 12)
        | Some p \<Rightarrow> p)"

section \<open>The summary of a decomposition\<close>

text \<open>
  \<^verbatim>\<open>dropna\<close> removes the points without a value; \<^verbatim>\<open>idxmax\<close> and \<^verbatim>\<open>idxmin\<close> return
  the label of the first point with the greatest (the least) value, and raise on an
  empty series.
\<close>

fun dropna :: "gappy_point list \<Rightarrow> point list" where
  "dropna [] = []"
| "dropna ((t, None) # ps) = dropna ps"
| "dropna ((t, Some v) # ps) = (t, v) # dropna ps"

definition idxmax :: "point list \<Rightarrow> error + timestamp" where
  "idxmax s =
     (case s of
        [] \<Rightarrow> Inl EmptySeries
      | p # ps \<Rightarrow> Inr (fst (fold (\<lambda>q best. if snd best < snd q then q else best) ps p)))"

definition idxmin :: "point list \<Rightarrow> error + timestamp" where
  "idxmin s =
     (case s of
        [] \<Rightarrow> Inl EmptySeries
      | p # ps \<Rightarrow> Inr (fst (fold (\<lambda>q best. if snd q < snd best then q else best) ps p)))"

text \<open>
  The five resolutions of the analysis. \<^verbatim>\<open>print_decomposition\<close> receives the title of
  the resolution and chooses the insight text by testing which of the five titles occurs
  in it (\<^verbatim>\<open>'Hourly Analysis' in title\<close>, then \<^verbatim>\<open>elif 'Daily Analysis' in title\<close>, and
  so on).
\<close>

datatype resolution = Hourly | Daily | Weekly | Monthly | Seasonal

fun title_of :: "resolution \<Rightarrow> string" where
  "title_of Hourly = ''Hourly Analysis''"
| "title_of Daily = ''Daily Analysis''"
| "title_of Weekly = ''Weekly Analysis''"
| "title_of Monthly = ''Monthly Analysis''"
| "title_of Seasonal = ''Seasonal Analysis''"

definition insight_branch :: "string \<Rightarrow> resolution option" where
  "insight_branch title =
     (if sublist ''Hourly Analysis'' title then Some Hourly
      else if sublist ''Daily Analysis'' title then Some Daily
      else if sublist ''Weekly Analysis'' title then Some Weekly
      else if sublist ''Monthly Analysis'' title then Some Monthly
      else if sublist ''Seasonal Analysis'' title then Some Seasonal
      else None)"

text \<open>
  The summary that \<^verbatim>\<open>print_decomposition\<close> returns is a text; the model keeps what the
  text is made of: the title, the low and the high sales periods, and for the insight
  paragraph the branch that wrote it with the two timestamps it names (the peak and the
  low). The plots are not modelled.
\<close>

record report =
  report_title :: string
  low_sales :: "point list"
  high_sales :: "point list"
  insight :: "(resolution \<times> timestamp \<times> timestamp) option"

definition extremes :: "point list \<Rightarrow> error + timestamp \<times> timestamp" where
  "extremes s =
     (case idxmax s of
        Inl e \<Rightarrow> Inl e
      | Inr peak \<Rightarrow> (case idxmin s of Inl e \<Rightarrow> Inl e | Inr low \<Rightarrow> Inr (peak, low)))"

definition print_decomposition :: "decompose_result \<Rightarrow> string \<Rightarrow> error + report" where
  "print_decomposition result title =
     (let (low, high) = identify_low_high_sales (observed result) (1 / 4);
          trend_values = dropna (trend result);
          seasonal_values = dropna (seasonal result)
      in case insight_branch title of
           None \<Rightarrow>
             Inr \<lparr>report_title = title, low_sales = low, high_sales = high, insight = None\<rparr>
         | Some branch \<Rightarrow>
             (case extremes (if branch = Seasonal then seasonal_values else trend_values) of
                Inl e \<Rightarrow> Inl e
              | Inr pl \<Rightarrow>
                  Inr \<lparr>report_title = title, low_sales = low, high_sales = high,
                       insight = Some (branch, pl)\<rparr>))"

section \<open>The analysis\<close>

text \<open>
  \<^verbatim>\<open>analyze_data\<close> runs the same steps for every resolution, with these constants:
  the period of the decomposition, the least number of resampled rows, and the line that
  stands for the summary when there are fewer rows.
\<close>

fun period_of :: "resolution \<Rightarrow> nat" where
  "period_of Hourly = 24"
| "period_of Daily = 7"
| "period_of Weekly = 4"
| "period_of Monthly = 12"
| "period_of Seasonal = 12"

fun min_buckets :: "resolution \<Rightarrow> nat" where
  "min_buckets Hourly = 48"
| "min_buckets Daily = 14"
| "min_buckets Weekly = 8"
| "min_buckets Monthly = 24"
| "min_buckets Seasonal = 24"

fun not_enough :: "resolution \<Rightarrow> string" where
  "not_enough Hourly = ''Not enough data for hourly analysis''"
| "not_enough Daily = ''Not enough data for daily analysis''"
| "not_enough Weekly = ''Not enough data for weekly analysis''"
| "not_enough Monthly = ''Not enough data for monthly analysis''"
| "not_enough Seasonal = ''Not enough data for seasonal analysis''"

datatype summary = Not_enough_data string | Analysis report

text \<open>
  One resolution:
  \<^verbatim>\<open>
      if len(daily_data) >= 14:
          daily_decompose = decompose_series(daily_data['sales'], period=7)
          summaries.append(print_decomposition(daily_decompose, 'Daily Analysis'))
      else:
          summaries.append("Not enough data for daily analysis")
  \<close>
\<close>

definition decompose_pass :: "resolution \<Rightarrow> series \<Rightarrow> error + decompose_result" where
  "decompose_pass r data = decompose_series data Additive (Some (period_of r))"

definition analysis_pass :: "resolution \<Rightarrow> series \<Rightarrow> error + summary" where
  "analysis_pass r data =
     (if min_buckets r \<le> length (points data) then
        (case decompose_pass r data of
           Inl e \<Rightarrow> Inl e
         | Inr result \<Rightarrow>
             (case print_decomposition result (title_of r) of
                Inl e \<Rightarrow> Inl e
              | Inr rep \<Rightarrow> Inr (Analysis rep)))
      else Inr (Not_enough_data (not_enough r)))"

text \<open>
  \<^verbatim>\<open>analyze_data\<close> on the loaded frame: the hourly, daily, weekly and monthly passes
  each resample the frame; the seasonal pass works on the monthly rows again. An
  exception ends the whole run.
\<close>

definition analyze_data :: "frame \<Rightarrow> error + summary list" where
  "analyze_data df =
     (case resample_data df Freq_H of Inl e \<Rightarrow> Inl e | Inr hourly_data \<Rightarrow>
      case analysis_pass Hourly hourly_data of Inl e \<Rightarrow> Inl e | Inr s1 \<Rightarrow>
      case resample_data df Freq_D of Inl e \<Rightarrow> Inl e | Inr daily_data \<Rightarrow>
      case analysis_pass Daily daily_data of Inl e \<Rightarrow> Inl e | Inr s2 \<Rightarrow>
      case resample_data df Freq_W of Inl e \<Rightarrow> Inl e | Inr weekly_data \<Rightarrow>
      case analysis_pass Weekly weekly_data of Inl e \<Rightarrow> Inl e | Inr s3 \<Rightarrow>
      case resample_data df Freq_M of Inl e \<Rightarrow> Inl e | Inr monthly_data \<Rightarrow>
      case analysis_pass Monthly monthly_data of Inl e \<Rightarrow> Inl e | Inr s4 \<Rightarrow>
      case analysis_pass Seasonal monthly_data of Inl e \<Rightarrow> Inl e | Inr s5 \<Rightarrow>
      Inr [s1, s2, s3, s4, s5])"

section \<open>Notions of the specification\<close>

text \<open>
  The argmax and the argmin of a series, in the words of the specification: the label of
  a point whose value no other value exceeds (falls below).
\<close>

definition is_argmax :: "point list \<Rightarrow> timestamp \<Rightarrow> bool" where
  "is_argmax s t \<longleftrightarrow> (\<exists>p \<in> set s. fst p = t \<and> (\<forall>q \<in> set s. snd q \<le> snd p))"

definition is_argmin :: "point list \<Rightarrow> timestamp \<Rightarrow> bool" where
  "is_argmin s t \<longleftrightarrow> (\<exists>p \<in> set s. fst p = t \<and> (\<forall>q \<in> set s. snd p \<le> snd q))"

section \<open>Properties of float rounding\<close>

lemma round_half_even_of_int [simp]: "round_half_even (of_int k) = k"
  by (simp add: round_half_even_def)

lemma float_exponent_of_int:
  assumes "0 < a"
  shows "float_exponent (of_int a) = bitlen a - 1"
proof -
  have b1: "bitlen 1 = 1" by (simp add: bitlen_alt_def)
  have ge: "1 \<le> bitlen a" using assms by (simp add: bitlen_alt_def)
  have "(2::int) ^ nat (bitlen a - 1) \<le> a" using bitlen_bounds [OF assms] by simp
  then have "(of_int ((2::int) ^ nat (bitlen a - 1)) :: rat) \<le> of_int a"
    by (simp only: of_int_le_iff)
  then have "(2::rat) powi (bitlen a - 1) \<le> of_int a"
    using ge by (simp add: power_int_def)
  then show ?thesis
    by (simp add: float_exponent_def quotient_of_int b1)
qed

lemma round64_zero [simp]: "round64 0 = 0"
  by (simp add: round64_def)

lemma round64_two_to_53: "round64 9007199254740992 = 9007199254740992"
  by code_simp

lemma round64_nat_exact:
  assumes pos: "0 < a" and le: "a \<le> 2 ^ 53"
  shows "round64 (of_int a) = of_int a"
proof -
  define e where "e = bitlen a - 1"
  have e0: "0 \<le> e" using pos by (simp add: e_def bitlen_alt_def)
  have lo: "(2::int) ^ nat e \<le> a" using bitlen_bounds [OF pos] by (simp add: e_def)
  have p: "(2::int) ^ nat e \<le> 2 ^ 53" using lo le by (rule order_trans)
  have "nat e \<le> 53" by (rule power_le_imp_le_exp [OF _ p]) simp
  then have e53: "e \<le> 53" by simp
  have fe: "float_exponent (of_int a) = e"
    using float_exponent_of_int [OF pos] by (simp add: e_def)
  have q: "max (e - 52) (- 1074) = e - 52" using e0 by simp
  have r: "round64 (of_int a)
             = of_int (round_half_even (of_int a / 2 powi (e - 52))) * 2 powi (e - 52)"
    using pos by (simp add: round64_def Let_def fe q)
  show ?thesis
  proof (cases "e \<le> 52")
    case True
    then have "(of_int a :: rat) / 2 powi (e - 52) = of_int (a * 2 ^ nat (52 - e))"
      by (simp add: power_int_def field_simps)
    then have "round_half_even (of_int a / 2 powi (e - 52)) = a * 2 ^ nat (52 - e)"
      by (simp only: round_half_even_of_int)
    then show ?thesis using True by (simp add: r power_int_def field_simps)
  next
    case False
    then have "e = 53" using e53 by simp
    then have "a = 2 ^ 53" using lo le by simp
    then show ?thesis using round64_two_to_53 by simp
  qed
qed

lemma round64_minus: "round64 (- x) = - round64 x"
  by (simp add: round64_def Let_def)

text \<open>
  An integer of absolute value at most \<open>2 ^ 53\<close> is a float: rounding leaves it as it
  is.
\<close>

lemma round64_int_exact:
  assumes "\<bar>k\<bar> \<le> 2 ^ 53"
  shows "round64 (of_int k) = of_int k"
proof -
  consider "k = 0" | "0 < k" | "k < 0" by linarith
  then show ?thesis
  proof cases
    case 1
    then show ?thesis by simp
  next
    case 2
    then show ?thesis using assms round64_nat_exact [of k] by simp
  next
    case 3
    then have "round64 (of_int (- k)) = of_int (- k)"
      using assms round64_nat_exact [of "- k"] by simp
    then show ?thesis using round64_minus [of "of_int k"] by simp
  qed
qed

lemma round64_Ints_exact:
  assumes "x \<in> \<int>" and "\<bar>x\<bar> \<le> 2 ^ 53"
  shows "round64 x = x"
proof -
  obtain k where k: "x = of_int k" using assms(1) by (rule Ints_cases)
  have "(of_int \<bar>k\<bar> :: rat) \<le> of_int (2 ^ 53)" using assms(2) by (simp add: k)
  then have "\<bar>k\<bar> \<le> 2 ^ 53" by (simp only: of_int_le_iff)
  then show ?thesis unfolding k by (rule round64_int_exact)
qed

section \<open>Properties of the low and high sales periods\<close>

lemma length_sort_values: "length (sort_values series) = length series"
  by (simp add: sort_values_def)

lemma sorted_sort_values: "sorted (map snd (sort_values series))"
  by (simp add: sort_values_def)

lemma mset_sort_values: "mset (sort_values series) = mset series"
  by (simp add: sort_values_def)

lemma low_high_zero_count:
  assumes "py_int (round64 (of_nat (length series) * threshold)) = 0"
  shows "identify_low_high_sales series threshold = ([], sort_values series)"
  using assms
  by (simp add: identify_low_high_sales_def Let_def slice_upto_def slice_from_def
        length_sort_values)

text \<open>
  When at least one point is selected, the two slices are the first and the last
  \<open>k\<close> points of the sorted series.
\<close>

lemma low_high_positive_count:
  assumes "py_int (round64 (of_nat (length series) * threshold)) = int k" and "0 < k"
  shows "identify_low_high_sales series threshold =
           (take k (sort_values series),
            drop (length series - k) (sort_values series))"
  using assms
  by (simp add: identify_low_high_sales_def Let_def slice_upto_def slice_from_def
        length_sort_values)

text \<open>
  With the default threshold 0.25, fewer than four points give the count 0.
\<close>

lemma quarter_count_below_four:
  assumes "n < 4"
  shows "py_int (round64 (of_nat n * (1 / 4))) = 0"
proof -
  have c: "py_int (round64 (of_nat (0::nat) * (1 / 4))) = 0"
          "py_int (round64 (of_nat (1::nat) * (1 / 4))) = 0"
          "py_int (round64 (of_nat (2::nat) * (1 / 4))) = 0"
          "py_int (round64 (of_nat (3::nat) * (1 / 4))) = 0"
    by code_simp+
  from assms consider "n = 0" | "n = 1" | "n = 2" | "n = 3" by linarith
  then show ?thesis using c by cases simp_all
qed

lemma zero_count_slices:
  assumes "py_int (round64 (of_nat (length series) * threshold)) = 0
           \<or> (threshold = 1 / 4 \<and> length series < 4)"
  shows "identify_low_high_sales series threshold = ([], sort_values series)"
proof -
  have "py_int (round64 (of_nat (length series) * threshold)) = 0"
    using assms
  proof
    assume "py_int (round64 (of_nat (length series) * threshold)) = 0"
    then show ?thesis .
  next
    assume a: "threshold = 1 / 4 \<and> length series < 4"
    then have "py_int (round64 (of_nat (length series) * (1 / 4))) = 0"
      by (intro quarter_count_below_four) simp
    then show ?thesis unfolding conjunct1 [OF a] .
  qed
  then show ?thesis by (rule low_high_zero_count)
qed

text \<open>
  Claim C10, as amended. For a nonempty series for which the count
  \<^verbatim>\<open>int(len(sorted_series) * threshold)\<close>, as the float arithmetic of the program
  computes it, is 0 (as it is for the default threshold 0.25 and one to three points),
  the low slice is empty and the high slice is the whole series sorted by value: it is
  in ascending order of the values and has the points of the series; the two lengths add
  up to the length of the series.
\<close>

theorem zero_count_high_is_whole_series:
  assumes "series \<noteq> []"
    and "py_int (round64 (of_nat (length series) * threshold)) = 0
         \<or> (threshold = 1 / 4 \<and> length series < 4)"
  shows "fst (identify_low_high_sales series threshold) = []
       \<and> snd (identify_low_high_sales series threshold) = sort_values series
       \<and> sorted (map snd (snd (identify_low_high_sales series threshold)))
       \<and> mset (snd (identify_low_high_sales series threshold)) = mset series
       \<and> length (snd (identify_low_high_sales series threshold)) = length series
       \<and> length (fst (identify_low_high_sales series threshold))
           + length (snd (identify_low_high_sales series threshold)) = length series"
  using zero_count_slices [OF assms(2)]
  by (simp add: length_sort_values sorted_sort_values mset_sort_values)

theorem zero_count_high_is_whole_series_witness:
  "[(0, 7), (60, 2), (120, 5)] \<noteq> ([] :: point list)
   \<and> py_int (round64 (of_nat (length [(0::int, 7::rat), (60, 2), (120, 5)]) * (1 / 4))) = 0
   \<and> fst (identify_low_high_sales [(0, 7), (60, 2), (120, 5)] (1 / 4)) = []
   \<and> snd (identify_low_high_sales [(0, 7), (60, 2), (120, 5)] (1 / 4))
       = [(60, 2), (120, 5), (0, 7)]"
proof -
  have c: "py_int (round64 (of_nat (length [(0::int, 7::rat), (60, 2), (120, 5)]) * (1 / 4)))
             = 0"
    by code_simp
  have s: "sort_values [(0, 7), (60, 2), (120, 5)] = [(60, 2), (120, 5), (0, 7)]"
    by code_simp
  from zero_count_high_is_whole_series [of "[(0, 7), (60, 2), (120, 5)]" "1 / 4"] c s
  show ?thesis by simp
qed

text \<open>
  The float nearest to one third is below one third, so a series of three points has
  \<open>floor (threshold * n) = 0\<close> and \<open>n < 1 / threshold\<close> for it; but the float product
  \<open>3 * threshold\<close> is rounded to 1.0, and one point is selected for each slice.
\<close>

theorem rounded_product_selects_a_point:
  "round64 (1 / 3) = 6004799503160661 / 18014398509481984
   \<and> [(0, 3), (60, 1), (120, 2)] \<noteq> ([] :: point list)
   \<and> \<lfloor>(6004799503160661 / 18014398509481984 :: rat)
         * of_nat (length [(0::int, 3::rat), (60, 1), (120, 2)])\<rfloor> = 0
   \<and> of_nat (length [(0::int, 3::rat), (60, 1), (120, 2)])
        < 1 / (6004799503160661 / 18014398509481984 :: rat)
   \<and> identify_low_high_sales [(0, 3), (60, 1), (120, 2)]
         (6004799503160661 / 18014398509481984)
       = ([(60, 1)], [(0, 3)])"
  by code_simp

section \<open>Properties of the decomposition\<close>

lemma length_centered_moving_average [simp]:
  "length (centered_moving_average period xs) = length xs"
  by (simp add: centered_moving_average_def)

lemma nth_centered_moving_average:
  "i < length xs \<Longrightarrow> centered_moving_average period xs ! i = moving_average_at period xs i"
  by (simp add: centered_moving_average_def)

lemma moving_average_at_None_iff:
  "moving_average_at period xs i = None \<longleftrightarrow> i < period div 2 \<or> length xs \<le> i + period div 2"
  by (simp add: moving_average_at_def Let_def)

lemma detrend_None_iff: "detrend m x t = None \<longleftrightarrow> t = None"
  by (cases m; cases t) simp_all

lemma map_filter_nonempty:
  assumes "x \<in> set xs" and "f x = Some y"
  shows "List.map_filter f xs \<noteq> []"
  using assms by (induction xs) (auto split: option.splits)

lemma position_values_nonempty:
  assumes "i < length ds" and "ds ! i = Some d" and "i mod period = j"
  shows "position_values period ds j \<noteq> []"
  unfolding position_values_def
  by (rule map_filter_nonempty [where x = i and y = d]) (use assms in simp_all)

lemma those_all_Some:
  assumes "\<forall>x \<in> set xs. x \<noteq> None"
  shows "\<exists>ys. those xs = Some ys \<and> length ys = length xs"
  using assms by (induction xs) auto

lemma covering_position:
  fixes period n j :: nat
  assumes "2 \<le> period" and "2 * period \<le> n" and "j < period"
  shows "\<exists>i. period div 2 \<le> i \<and> i + period div 2 < n \<and> i mod period = j"
proof -
  define h where "h = period div 2"
  define i where "i = h + (j + period - h) mod period"
  have hp: "h < period" using assms(1) by (simp add: h_def)
  have "(j + period - h) mod period < period" using assms(1) by simp
  then have "i + h < period + 2 * h" by (simp add: i_def)
  also have "\<dots> \<le> n" using assms(2) by (simp add: h_def)
  finally have upper: "i + h < n" .
  have "i mod period = (h + (j + period - h)) mod period"
    by (simp add: i_def mod_add_right_eq)
  also have "h + (j + period - h) = j + period" using hp by simp
  also have "(j + period) mod period = j" using assms(3) by simp
  finally have "i mod period = j" .
  moreover have "h \<le> i" by (simp add: i_def)
  ultimately show ?thesis using upper unfolding h_def by blast
qed

lemma seasonal_mean_defined:
  fixes m :: model
  assumes p2: "2 \<le> period" and n2: "2 * period \<le> length xs"
  defines "ds \<equiv> map2 (detrend m) xs (centered_moving_average period xs)"
  shows "\<forall>a \<in> set (seasonal_mean ds period). a \<noteq> None"
proof -
  have len: "length ds = length xs" by (simp add: ds_def)
  have "mean (position_values period ds j) \<noteq> None" if jp: "j < period" for j
  proof -
    obtain i where i: "period div 2 \<le> i" "i + period div 2 < length xs" "i mod period = j"
      using covering_position [OF p2 n2 jp] by blast
    then have ilt: "i < length xs" by simp
    have "ds ! i \<noteq> None"
      using i ilt
      by (simp add: ds_def nth_centered_moving_average detrend_None_iff
            moving_average_at_None_iff)
    then obtain d where "ds ! i = Some d" by auto
    then have "position_values period ds j \<noteq> []"
      using position_values_nonempty [of i ds d period j] ilt len i(3) by simp
    then show ?thesis by (simp add: mean_def)
  qed
  then show ?thesis by (auto simp: seasonal_mean_def)
qed

lemma seasonal_index_defined:
  assumes p2: "2 \<le> period" and n2: "2 * period \<le> length xs"
  defines "ds \<equiv> map2 (detrend Additive) xs (centered_moving_average period xs)"
  shows "length (seasonal_index Additive ds period) = period
       \<and> (\<forall>j < period. seasonal_index Additive ds period ! j \<noteq> None)"
proof -
  have "\<forall>a \<in> set (seasonal_mean ds period). a \<noteq> None"
    unfolding ds_def by (rule seasonal_mean_defined [OF p2 n2])
  then obtain avgs where avgs: "those (seasonal_mean ds period) = Some avgs"
      "length avgs = length (seasonal_mean ds period)"
    using those_all_Some by blast
  have len: "length avgs = period" using avgs(2) by (simp add: seasonal_mean_def)
  then have "avgs \<noteq> []" using p2 by auto
  then obtain c where c: "mean avgs = Some c" by (auto simp: mean_def)
  have "seasonal_index Additive ds period = map (\<lambda>a. Some (normalise Additive c a)) avgs"
    by (simp add: seasonal_index_def avgs(1) c)
  then show ?thesis using len by simp
qed

lemma seasonal_decompose_additive:
  assumes p2: "2 \<le> period" and n2: "2 * period \<le> length x"
  shows "seasonal_decompose x Additive period =
     Inr \<lparr>observed = x,
          trend = zip (map fst x) (centered_moving_average period (map snd x)),
          seasonal = zip (map fst x)
            (map (\<lambda>i. seasonal_index Additive
                          (map2 (detrend Additive) (map snd x)
                             (centered_moving_average period (map snd x))) period
                        ! (i mod period)) [0..<length x]),
          resid = zip (map fst x)
            (map (\<lambda>i. residual Additive (map snd x ! i)
                          (centered_moving_average period (map snd x) ! i)
                          (map (\<lambda>i. seasonal_index Additive
                             (map2 (detrend Additive) (map snd x)
                                (centered_moving_average period (map snd x))) period
                             ! (i mod period)) [0..<length x] ! i))
               [0..<length x])\<rparr>"
  using assms by (simp add: seasonal_decompose_def Let_def)

lemma seasonal_decompose_accepts_iff:
  "(\<exists>r. seasonal_decompose x Additive period = Inr r)
     \<longleftrightarrow> 2 \<le> period \<and> 2 * period \<le> length x"
  by (auto simp: seasonal_decompose_def Let_def)

lemma residual_additive_None_iff:
  "residual Additive x t (Some s) = None \<longleftrightarrow> t = None"
  by (cases t) simp_all

lemma additive_components:
  assumes ok: "decompose_series s Additive (Some period) = Inr r"
    and i: "i < length (points s)"
  shows "observed r = points s
       \<and> length (trend r) = length (points s)
       \<and> length (seasonal r) = length (points s)
       \<and> length (resid r) = length (points s)
       \<and> fst (trend r ! i) = fst (points s ! i)
       \<and> fst (seasonal r ! i) = fst (points s ! i)
       \<and> fst (resid r ! i) = fst (points s ! i)
       \<and> (snd (trend r ! i) = None
            \<longleftrightarrow> i < period div 2 \<or> length (points s) \<le> i + period div 2)
       \<and> (snd (resid r ! i) = None
            \<longleftrightarrow> i < period div 2 \<or> length (points s) \<le> i + period div 2)
       \<and> (\<forall>t. snd (trend r ! i) = Some t \<longrightarrow>
              (\<exists>c e. snd (seasonal r ! i) = Some c \<and> snd (resid r ! i) = Some e
                     \<and> snd (observed r ! i) = t + c + e))"
proof -
  define x where "x = points s"
  define xs where "xs = map snd x"
  define tr where "tr = centered_moving_average period xs"
  define idx where "idx = seasonal_index Additive (map2 (detrend Additive) xs tr) period"
  have dec: "seasonal_decompose x Additive period = Inr r"
    using ok by (simp add: decompose_series_def x_def)
  then have p2: "2 \<le> period" and n2: "2 * period \<le> length x"
    using seasonal_decompose_accepts_iff [of x period] by blast+
  have ix: "i < length x" using i by (simp add: x_def)
  have r: "r = \<lparr>observed = x, trend = zip (map fst x) tr,
        seasonal = zip (map fst x) (map (\<lambda>i. idx ! (i mod period)) [0..<length x]),
        resid = zip (map fst x)
          (map (\<lambda>i. residual Additive (xs ! i) (tr ! i)
                   (map (\<lambda>i. idx ! (i mod period)) [0..<length x] ! i)) [0..<length x])\<rparr>"
    using dec seasonal_decompose_additive [OF p2 n2]
    by (simp add: xs_def tr_def idx_def)
  have n2': "2 * period \<le> length xs" using n2 by (simp add: xs_def)
  have "i mod period < period" using p2 by simp
  then have "idx ! (i mod period) \<noteq> None"
    using seasonal_index_defined [OF p2 n2'] by (simp add: idx_def tr_def)
  then obtain c where c: "idx ! (i mod period) = Some c" by auto
  have tri: "tr ! i = moving_average_at period xs i"
    using ix by (simp add: tr_def xs_def nth_centered_moving_average)
  have tr_none: "tr ! i = None \<longleftrightarrow> i < period div 2 \<or> length x \<le> i + period div 2"
    by (simp add: tri moving_average_at_None_iff xs_def)
  have trend_i: "trend r ! i = (fst (x ! i), tr ! i)"
    using ix by (simp add: r tr_def xs_def)
  have seas_i: "seasonal r ! i = (fst (x ! i), Some c)"
    using ix c by (simp add: r)
  have resid_i: "resid r ! i = (fst (x ! i), residual Additive (xs ! i) (tr ! i) (Some c))"
    using ix c by (simp add: r)
  have obs_i: "snd (observed r ! i) = xs ! i"
    using ix by (simp add: r xs_def)
  have sum_i: "\<exists>c' e. snd (seasonal r ! i) = Some c' \<and> snd (resid r ! i) = Some e
                 \<and> snd (observed r ! i) = t + c' + e" if "snd (trend r ! i) = Some t" for t
  proof -
    have "tr ! i = Some t" using that by (simp add: trend_i)
    then have "snd (resid r ! i) = Some (xs ! i - t - c)" by (simp add: resid_i)
    then show ?thesis by (simp add: seas_i obs_i)
  qed
  have lens: "length (trend r) = length x" "length (seasonal r) = length x"
    "length (resid r) = length x"
    by (simp_all add: r tr_def xs_def)
  have obs: "observed r = x" by (simp add: r)
  have fsts: "fst (trend r ! i) = fst (x ! i)" "fst (seasonal r ! i) = fst (x ! i)"
    "fst (resid r ! i) = fst (x ! i)"
    by (simp_all add: trend_i seas_i resid_i)
  have trend_none: "snd (trend r ! i) = None
      \<longleftrightarrow> i < period div 2 \<or> length x \<le> i + period div 2"
    using tr_none by (simp add: trend_i)
  have resid_none: "snd (resid r ! i) = None
      \<longleftrightarrow> i < period div 2 \<or> length x \<le> i + period div 2"
    using tr_none by (simp add: resid_i residual_additive_None_iff)
  from obs lens fsts trend_none resid_none sum_i show ?thesis
    unfolding x_def by blast
qed

text \<open>
  Claim C1. A series that the additive decomposition accepts is decomposed so that the
  four components share the index of the input; the trend and the residual are missing
  exactly at the first and the last \<open>period div 2\<close> positions; and wherever the trend
  is defined, the seasonal component and the residual are defined too and the observed
  value is the sum of the three (exactly, in the rational arithmetic of the model, hence
  within every positive tolerance).
\<close>

theorem additive_decomposition_invariant:
  assumes ok: "decompose_series s Additive (Some period) = Inr r"
    and i: "i < length (points s)"
  shows "observed r = points s
       \<and> length (trend r) = length (points s)
       \<and> length (seasonal r) = length (points s)
       \<and> length (resid r) = length (points s)
       \<and> fst (trend r ! i) = fst (points s ! i)
       \<and> fst (seasonal r ! i) = fst (points s ! i)
       \<and> fst (resid r ! i) = fst (points s ! i)
       \<and> (snd (trend r ! i) = None
            \<longleftrightarrow> i < period div 2 \<or> length (points s) \<le> i + period div 2)
       \<and> (snd (resid r ! i) = None
            \<longleftrightarrow> i < period div 2 \<or> length (points s) \<le> i + period div 2)
       \<and> (\<forall>t. snd (trend r ! i) = Some t \<longrightarrow>
              (\<exists>c e. snd (seasonal r ! i) = Some c \<and> snd (resid r ! i) = Some e
                     \<and> snd (observed r ! i) = t + c + e))"
  using additive_components [OF ok i] .

theorem additive_decomposition_invariant_witness:
  "decompose_series \<lparr>index_freq = Some Freq_W, points = [(0, 1), (1, 3), (2, 2), (3, 6)]\<rparr>
       Additive (Some 2)
     = Inr \<lparr>observed = [(0, 1), (1, 3), (2, 2), (3, 6)],
            trend = [(0, None), (1, Some (9 / 4)), (2, Some (13 / 4)), (3, None)],
            seasonal = [(0, Some (- 1)), (1, Some 1), (2, Some (- 1)), (3, Some 1)],
            resid = [(0, None), (1, Some (- (1 / 4))), (2, Some (- (1 / 4))), (3, None)]\<rparr>
   \<and> (1::nat) < length [(0::int, 1::rat), (1, 3), (2, 2), (3, 6)]
   \<and> (3::rat) = 9 / 4 + 1 + - (1 / 4)"
proof -
  let ?s = "\<lparr>index_freq = Some Freq_W, points = [(0, 1), (1, 3), (2, 2), (3, 6)]\<rparr>"
  let ?r = "\<lparr>observed = [(0, 1), (1, 3), (2, 2), (3, 6)],
            trend = [(0, None), (1, Some (9 / 4)), (2, Some (13 / 4)), (3, None)],
            seasonal = [(0, Some (- 1)), (1, Some 1), (2, Some (- 1)), (3, Some 1)],
            resid = [(0, None), (1, Some (- (1 / 4))), (2, Some (- (1 / 4))), (3, None)]\<rparr>"
  have dec: "decompose_series ?s Additive (Some 2) = Inr ?r" by code_simp
  have i: "1 < length (points ?s)" by simp
  from additive_decomposition_invariant [OF dec i] dec show ?thesis by simp
qed

section \<open>Properties of resampling\<close>

lemma fold_min_lower: "x \<in> set (k # ks) \<Longrightarrow> fold min ks (k::int) \<le> x"
  unfolding Min.set_eq_fold [symmetric] by (rule Min_le) simp_all

lemma fold_max_upper: "x \<in> set (k # ks) \<Longrightarrow> x \<le> fold max ks (k::int)"
  unfolding Max.set_eq_fold [symmetric] by (rule Max_ge) simp_all

lemma sum_list_single_bucket:
  "sum_list (map (\<lambda>k. if c = k then v else 0) [lo..hi])
     = (if lo \<le> c \<and> c \<le> hi then (v::rat) else 0)"
  by (simp add: sum_list_distinct_conv_sum_set)

text \<open>
  Adding a quantity \<open>g\<close> of the points bucket by bucket gives its sum over all points.
\<close>

lemma sum_list_buckets:
  fixes g :: "point \<Rightarrow> rat"
  assumes "\<forall>p \<in> set pts. lo \<le> b p \<and> b p \<le> hi"
  shows "sum_list (map (\<lambda>k. sum_list (map g (filter (\<lambda>p. b p = k) pts))) [lo..hi])
           = sum_list (map g pts)"
  using assms
proof (induction pts)
  case Nil
  then show ?case by simp
next
  case (Cons p pts)
  have "sum_list (map (\<lambda>k. sum_list (map g (filter (\<lambda>q. b q = k) (p # pts)))) [lo..hi])
      = sum_list (map (\<lambda>k. (if b p = k then g p else 0)
                              + sum_list (map g (filter (\<lambda>q. b q = k) pts))) [lo..hi])"
    by (rule arg_cong [where f = sum_list], rule map_cong) auto
  also have "\<dots> = sum_list (map (\<lambda>k. if b p = k then g p else 0) [lo..hi])
                 + sum_list (map (\<lambda>k. sum_list (map g (filter (\<lambda>q. b q = k) pts))) [lo..hi])"
    by (simp add: sum_list_addf)
  also have "\<dots> = g p + sum_list (map g pts)"
    using Cons by (simp add: sum_list_single_bucket)
  finally show ?case by simp
qed

lemma sum_list_filter_sorted:
  fixes g :: "point \<Rightarrow> rat"
  shows "sum_list (map g (filter P (sort_key fst pts))) = sum_list (map g (filter P pts))"
proof -
  have "mset (map g (filter P (sort_key fst pts))) = mset (map g (filter P pts))"
    by simp
  then show ?thesis by (metis sum_mset_sum_list)
qed

lemma sum_list_filter_le:
  fixes g :: "point \<Rightarrow> rat"
  assumes "\<forall>p \<in> set pts. 0 \<le> g p"
  shows "sum_list (map g (filter P pts)) \<le> sum_list (map g pts)"
  using assms by (induction pts) (auto intro: add_increasing)

text \<open>
  Float sums of integers that stay within \<open>2 ^ 53\<close> are exact.
\<close>

lemma foldl_fadd_exact:
  assumes "s \<in> \<int>" and "\<forall>v \<in> set vs. v \<in> \<int>"
    and "\<bar>s\<bar> + sum_list (map abs vs) \<le> 2 ^ 53"
  shows "foldl fadd s vs = s + sum_list vs"
  using assms
proof (induction vs arbitrary: s)
  case Nil
  then show ?case by simp
next
  case (Cons v vs)
  have v: "v \<in> \<int>" using Cons.prems(2) by simp
  have b: "\<bar>s + v\<bar> + sum_list (map abs vs) \<le> 2 ^ 53"
    using Cons.prems(3) by (simp add: abs_triangle_ineq [THEN order_trans])
  have nn: "0 \<le> sum_list (map abs vs)" by (rule sum_list_nonneg) auto
  have "\<bar>s + v\<bar> \<le> 2 ^ 53" using b nn by linarith
  then have step: "fadd s v = s + v"
    using Cons.prems(1) v by (simp add: fadd_def round64_Ints_exact)
  have "foldl fadd (s + v) vs = s + v + sum_list vs"
    using Cons.prems(1,2) v b by (intro Cons.IH) simp_all
  then show ?case by (simp add: step)
qed

lemma float_total_exact:
  assumes "\<forall>v \<in> set vs. v \<in> \<int>" and "sum_list (map abs vs) \<le> 2 ^ 53"
  shows "float_total vs = sum_list vs"
  using foldl_fadd_exact [of 0 vs] assms by (simp add: float_total_def)

lemma foldl_kahan_exact:
  assumes "s \<in> \<int>" and "\<forall>v \<in> set vs. v \<in> \<int>"
    and "\<bar>s\<bar> + sum_list (map abs vs) \<le> 2 ^ 53"
  shows "foldl kahan_step (s, 0) vs = (s + sum_list vs, 0)"
  using assms
proof (induction vs arbitrary: s)
  case Nil
  then show ?case by simp
next
  case (Cons v vs)
  have v: "v \<in> \<int>" using Cons.prems(2) by simp
  have b: "\<bar>s + v\<bar> + sum_list (map abs vs) \<le> 2 ^ 53"
    using Cons.prems(3) by (simp add: abs_triangle_ineq [THEN order_trans])
  have nn: "0 \<le> sum_list (map abs vs)" by (rule sum_list_nonneg) auto
  have sv: "\<bar>s + v\<bar> \<le> 2 ^ 53" using b nn by linarith
  have "\<bar>v\<bar> \<le> 2 ^ 53" using Cons.prems(3) nn by simp
  then have rv: "round64 v = v" using v by (simp add: round64_Ints_exact)
  have rs: "round64 (s + v) = s + v"
    using Cons.prems(1) v sv by (simp add: round64_Ints_exact)
  have step: "kahan_step (s, 0) v = (s + v, 0)"
    by (simp add: kahan_step_def fadd_def fsub_def Let_def rv rs)
  have "foldl kahan_step (s + v, 0) vs = (s + v + sum_list vs, 0)"
    using Cons.prems(1,2) v b by (intro Cons.IH) simp_all
  then show ?case by (simp add: step)
qed

lemma group_sum_exact:
  assumes "\<forall>v \<in> set vs. v \<in> \<int>" and "sum_list (map abs vs) \<le> 2 ^ 53"
  shows "group_sum vs = sum_list vs"
  using foldl_kahan_exact [of 0 vs] assms by (simp add: group_sum_def)

lemma sum_list_Ints:
  fixes vs :: "rat list"
  assumes "\<forall>v \<in> set vs. v \<in> \<int>"
  shows "sum_list vs \<in> \<int>"
  using assms by (induction vs) auto

lemma bucket_sum_exact:
  assumes ints: "\<forall>p \<in> set pts. snd p \<in> \<int>"
    and bound: "sum_list (map (\<lambda>p. \<bar>snd p\<bar>) pts) \<le> 2 ^ 53"
  shows "bucket_sum f pts k
           = sum_list (map snd (filter (\<lambda>p. bucket_of f (fst p) = k) pts))"
proof -
  let ?P = "\<lambda>p. bucket_of f (fst p) = k"
  let ?vs = "map snd (filter ?P (sort_key fst pts))"
  have i: "\<forall>v \<in> set ?vs. v \<in> \<int>" using ints by auto
  have "sum_list (map abs ?vs) = sum_list (map (\<lambda>p. \<bar>snd p\<bar>) (filter ?P (sort_key fst pts)))"
    by (simp add: comp_def)
  also have "\<dots> = sum_list (map (\<lambda>p. \<bar>snd p\<bar>) (filter ?P pts))"
    by (rule sum_list_filter_sorted)
  also have "\<dots> \<le> sum_list (map (\<lambda>p. \<bar>snd p\<bar>) pts)"
    by (rule sum_list_filter_le) simp
  finally have "sum_list (map abs ?vs) \<le> 2 ^ 53" using bound by simp
  from group_sum_exact [OF i this]
  have "bucket_sum f pts k = sum_list ?vs" by (simp add: bucket_sum_def)
  also have "\<dots> = sum_list (map snd (filter ?P pts))"
    by (rule sum_list_filter_sorted)
  finally show ?thesis .
qed

lemma resample_sum_total:
  assumes ints: "\<forall>p \<in> set pts. snd p \<in> \<int>"
    and bound: "sum_list (map (\<lambda>p. \<bar>snd p\<bar>) pts) \<le> 2 ^ 53"
  shows "float_total (map snd (resample_sum f pts)) = sum_list (map snd pts)"
proof (cases pts)
  case Nil
  then show ?thesis by (simp add: resample_sum_def float_total_def)
next
  case (Cons p ps)
  define k where "k = bucket_of f (fst p)"
  define ks where "ks = map (\<lambda>p. bucket_of f (fst p)) ps"
  define lo where "lo = fold min ks k"
  define hi where "hi = fold max ks k"
  define E where "E = (\<lambda>b. sum_list (map snd (filter (\<lambda>p. bucket_of f (fst p) = b) pts)))"
  have in_range: "\<forall>q \<in> set pts. lo \<le> bucket_of f (fst q) \<and> bucket_of f (fst q) \<le> hi"
  proof
    fix q assume "q \<in> set pts"
    then have "bucket_of f (fst q) \<in> set (k # ks)"
      using Cons by (auto simp: k_def ks_def)
    then show "lo \<le> bucket_of f (fst q) \<and> bucket_of f (fst q) \<le> hi"
      unfolding lo_def hi_def using fold_min_lower fold_max_upper by blast
  qed
  have "resample_sum f pts = map (\<lambda>b. (b, bucket_sum f pts b)) [lo..hi]"
    using Cons by (simp add: resample_sum_def k_def ks_def lo_def hi_def)
  then have out: "map snd (resample_sum f pts) = map E [lo..hi]"
    by (simp add: comp_def E_def bucket_sum_exact [OF ints bound])
  have E_int: "\<forall>v \<in> set (map E [lo..hi]). v \<in> \<int>"
    using ints by (auto simp: E_def intro!: sum_list_Ints)
  have "sum_list (map abs (map E [lo..hi]))
          \<le> sum_list (map (\<lambda>b. sum_list (map (\<lambda>p. \<bar>snd p\<bar>)
                                (filter (\<lambda>p. bucket_of f (fst p) = b) pts))) [lo..hi])"
    unfolding map_map comp_def E_def
    by (rule sum_list_mono) (simp add: sum_list_abs [THEN order_trans] comp_def)
  also have "\<dots> = sum_list (map (\<lambda>p. \<bar>snd p\<bar>) pts)"
    by (rule sum_list_buckets [OF in_range])
  finally have E_bound: "sum_list (map abs (map E [lo..hi])) \<le> 2 ^ 53"
    using bound by simp
  have "float_total (map snd (resample_sum f pts)) = sum_list (map E [lo..hi])"
    unfolding out by (rule float_total_exact [OF E_int E_bound])
  also have "\<dots> = sum_list (map snd pts)"
    unfolding E_def by (rule sum_list_buckets [OF in_range])
  finally show ?thesis .
qed

text \<open>
  Claim C7, as amended. When the sales values are integers whose absolute values add up
  to at most \<open>2 ^ 53\<close>, no float addition rounds, and at every frequency the total of
  the resampled values equals the total of the values of the input frame, which is
  their exact sum.
\<close>

theorem resample_conserves_total:
  assumes "\<forall>p \<in> set pts. snd p \<in> \<int>"
    and "sum_list (map (\<lambda>p. \<bar>snd p\<bar>) pts) \<le> 2 ^ 53"
    and "resample_data (Datetime_frame pts) f = Inr s"
  shows "float_total (map snd (points s)) = float_total (map snd pts)
       \<and> float_total (map snd pts) = sum_list (map snd pts)"
proof -
  have "float_total (map snd pts) = sum_list (map snd pts)"
    using assms(1,2) by (intro float_total_exact) (simp_all add: comp_def)
  moreover have "float_total (map snd (points s)) = sum_list (map snd pts)"
    using assms(3) resample_sum_total [OF assms(1,2)] by auto
  ultimately show ?thesis by simp
qed

theorem resample_conserves_total_witness:
  "list_all (\<lambda>p. snd p \<in> \<int>) [(61::int, 1::rat), (0, 2), (185, 4), (0, 3)]
   \<and> sum_list (map (\<lambda>p. \<bar>snd p\<bar>) [(61::int, 1::rat), (0, 2), (185, 4), (0, 3)]) \<le> 2 ^ 53
   \<and> resample_data (Datetime_frame [(61, 1), (0, 2), (185, 4), (0, 3)]) Freq_H
       = Inr \<lparr>index_freq = Some Freq_H, points = [(0, 5), (1, 1), (2, 0), (3, 4)]\<rparr>
   \<and> float_total (map snd [(0::int, 5::rat), (1, 1), (2, 0), (3, 4)])
       = float_total (map snd [(61::int, 1::rat), (0, 2), (185, 4), (0, 3)])"
proof -
  have i: "\<forall>p \<in> set [(61::int, 1::rat), (0, 2), (185, 4), (0, 3)]. snd p \<in> \<int>" by simp
  have b: "sum_list (map (\<lambda>p. \<bar>snd p\<bar>) [(61::int, 1::rat), (0, 2), (185, 4), (0, 3)])
             \<le> 2 ^ 53"
    by simp
  have r: "resample_data (Datetime_frame [(61, 1), (0, 2), (185, 4), (0, 3)]) Freq_H
     = Inr \<lparr>index_freq = Some Freq_H, points = [(0, 5), (1, 1), (2, 0), (3, 4)]\<rparr>"
    by code_simp
  from resample_conserves_total [OF i b r] i b r show ?thesis by simp
qed

text \<open>
  With the values 1, 1 and \<open>2 ^ 53\<close>, the second and the third in one hour, the sum of
  that hour is rounded to \<open>2 ^ 53\<close>: the resampled values add up to \<open>2 ^ 53\<close>, while the
  values of the input add up to \<open>2 ^ 53 + 2\<close>.
\<close>

theorem rounded_bucket_sum_loses_total:
  "resample_data (Datetime_frame [(0, 1), (60, 1), (61, 9007199254740992)]) Freq_H
     = Inr \<lparr>index_freq = Some Freq_H, points = [(0, 1), (1, 9007199254740992)]\<rparr>
   \<and> float_total (map snd [(0::int, 1::rat), (1, 9007199254740992)]) = 9007199254740992
   \<and> float_total (map snd [(0::int, 1::rat), (60, 1), (61, 9007199254740992)])
       = 9007199254740994
   \<and> sum_list (map snd [(0::int, 1::rat), (60, 1), (61, 9007199254740992)])
       = 9007199254740994"
  by code_simp

text \<open>
  Claim C8, as amended. \<^verbatim>\<open>resample_data\<close> fails exactly when the index of the frame is
  not a \<^verbatim>\<open>DatetimeIndex\<close>, and then with the one error it raises; on a frame with a
  datetime index it succeeds, whatever the order of the rows and whether or not a
  timestamp repeats.
\<close>

theorem resample_fails_iff_not_datetime:
  "((\<exists>e. resample_data df f = Inl e) \<longleftrightarrow> (\<exists>vs. df = Other_frame vs))
   \<and> (\<forall>e. resample_data df f = Inl e \<longrightarrow> e = InvalidIndexType)
   \<and> (\<forall>pts. df = Datetime_frame pts \<longrightarrow>
         resample_data df f = Inr \<lparr>index_freq = Some f, points = resample_sum f pts\<rparr>)"
  by (cases df) auto

theorem resample_fails_iff_not_datetime_witness:
  "resample_data (Other_frame [1, 2]) Freq_D = Inl InvalidIndexType
   \<and> resample_data (Datetime_frame [(0, 1), (1500, 2)]) Freq_D
       = Inr \<lparr>index_freq = Some Freq_D, points = resample_sum Freq_D [(0, 1), (1500, 2)]\<rparr>"
  using resample_fails_iff_not_datetime [of "Other_frame [1, 2]" Freq_D]
    resample_fails_iff_not_datetime [of "Datetime_frame [(0, 1), (1500, 2)]" Freq_D]
  by simp

text \<open>
  An input that is neither time-ordered nor free of duplicate timestamps is resampled
  without an error.
\<close>

theorem unordered_duplicate_input_is_resampled:
  "\<not> sorted_wrt (<) (map fst [(60::int, 1::rat), (0, 2), (0, 3)])
   \<and> \<not> distinct (map fst [(60::int, 1::rat), (0, 2), (0, 3)])
   \<and> resample_data (Datetime_frame [(60, 1), (0, 2), (0, 3)]) Freq_H
       = Inr \<lparr>index_freq = Some Freq_H, points = [(0, 5), (1, 1)]\<rparr>"
  by code_simp

section \<open>Properties of the summary\<close>

lemma fold_greatest:
  fixes p :: point
  defines "best \<equiv> fold (\<lambda>q best. if snd best < snd q then q else best)"
  shows "best ps p \<in> set (p # ps) \<and> (\<forall>q \<in> set (p # ps). snd q \<le> snd (best ps p))"
  unfolding best_def
proof (induction ps arbitrary: p)
  case Nil
  then show ?case by simp
next
  case (Cons a ps)
  show ?case
    using Cons [of "if snd p < snd a then a else p"]
    by (auto split: if_splits intro: order_trans less_imp_le)
qed

lemma fold_least:
  fixes p :: point
  defines "best \<equiv> fold (\<lambda>q best. if snd q < snd best then q else best)"
  shows "best ps p \<in> set (p # ps) \<and> (\<forall>q \<in> set (p # ps). snd (best ps p) \<le> snd q)"
  unfolding best_def
proof (induction ps arbitrary: p)
  case Nil
  then show ?case by simp
next
  case (Cons a ps)
  show ?case
    using Cons [of "if snd a < snd p then a else p"]
    by (auto split: if_splits intro: order_trans less_imp_le)
qed

lemma idxmax_is_argmax:
  assumes "s \<noteq> []"
  shows "\<exists>t. idxmax s = Inr t \<and> is_argmax s t"
proof -
  obtain p ps where s: "s = p # ps" using assms by (cases s) auto
  show ?thesis
    using fold_greatest [of ps p] unfolding s idxmax_def is_argmax_def
    by (intro exI conjI bexI [where x = "fold (\<lambda>q best. if snd best < snd q then q else best) ps p"]) simp_all
qed

lemma idxmin_is_argmin:
  assumes "s \<noteq> []"
  shows "\<exists>t. idxmin s = Inr t \<and> is_argmin s t"
proof -
  obtain p ps where s: "s = p # ps" using assms by (cases s) auto
  show ?thesis
    using fold_least [of ps p] unfolding s idxmin_def is_argmin_def
    by (intro exI conjI bexI [where x = "fold (\<lambda>q best. if snd q < snd best then q else best) ps p"]) simp_all
qed

lemma extremes_nonempty:
  assumes "s \<noteq> []"
  shows "\<exists>peak low. extremes s = Inr (peak, low) \<and> is_argmax s peak \<and> is_argmin s low"
  using idxmax_is_argmax [OF assms] idxmin_is_argmin [OF assms]
  by (auto simp: extremes_def)

lemma insight_branch_titles:
  "insight_branch ''Hourly Analysis'' = Some Hourly"
  "insight_branch ''Daily Analysis'' = Some Daily"
  "insight_branch ''Weekly Analysis'' = Some Weekly"
  "insight_branch ''Monthly Analysis'' = Some Monthly"
  "insight_branch ''Seasonal Analysis'' = Some Seasonal"
  by code_simp+

lemma insight_branch_title_of: "insight_branch (title_of r) = Some r"
  by (cases r) (simp_all add: insight_branch_titles)

lemma print_decomposition_title_of:
  assumes "(if r = Seasonal then dropna (seasonal result) else dropna (trend result)) \<noteq> []"
  shows "\<exists>peak low.
           print_decomposition result (title_of r)
             = Inr \<lparr>report_title = title_of r,
                    low_sales = fst (identify_low_high_sales (observed result) (1 / 4)),
                    high_sales = snd (identify_low_high_sales (observed result) (1 / 4)),
                    insight = Some (r, peak, low)\<rparr>
         \<and> is_argmax (if r = Seasonal then dropna (seasonal result)
                       else dropna (trend result)) peak
         \<and> is_argmin (if r = Seasonal then dropna (seasonal result)
                       else dropna (trend result)) low"
proof -
  obtain peak low where
    e: "extremes (if r = Seasonal then dropna (seasonal result) else dropna (trend result))
          = Inr (peak, low)"
    and a: "is_argmax (if r = Seasonal then dropna (seasonal result)
                        else dropna (trend result)) peak"
           "is_argmin (if r = Seasonal then dropna (seasonal result)
                        else dropna (trend result)) low"
    using extremes_nonempty [OF assms] by blast
  have "print_decomposition result (title_of r)
          = Inr \<lparr>report_title = title_of r,
                 low_sales = fst (identify_low_high_sales (observed result) (1 / 4)),
                 high_sales = snd (identify_low_high_sales (observed result) (1 / 4)),
                 insight = Some (r, peak, low)\<rparr>"
    using e by (simp add: print_decomposition_def insight_branch_title_of Let_def
                  split_beta del: title_of.simps)
  with a show ?thesis by blast
qed

section \<open>Properties of the analysis\<close>

lemma gate_is_two_periods: "min_buckets r = 2 * period_of r \<and> 2 \<le> period_of r"
  by (cases r) simp_all

lemma dropna_member: "(t, Some v) \<in> set s \<Longrightarrow> (t, v) \<in> set (dropna s)"
  by (induction s rule: dropna.induct) auto

lemma dropna_nonempty:
  assumes "i < length s" and "snd (s ! i) = Some v"
  shows "dropna s \<noteq> []"
proof -
  have "(fst (s ! i), Some v) \<in> set s"
    using assms by (metis nth_mem prod.collapse)
  then have "(fst (s ! i), v) \<in> set (dropna s)" by (rule dropna_member)
  then show ?thesis by auto
qed

lemma decompose_pass_insufficient_iff:
  "decompose_pass r data = Inl InsufficientData
     \<longleftrightarrow> length (points data) < 2 * period_of r"
  using gate_is_two_periods [of r]
  by (auto simp: decompose_pass_def decompose_series_def seasonal_decompose_def Let_def)

lemma decompose_pass_accepts:
  assumes gate: "min_buckets r \<le> length (points data)"
  shows "\<exists>result. decompose_pass r data = Inr result
           \<and> observed result = points data
           \<and> dropna (trend result) \<noteq> [] \<and> dropna (seasonal result) \<noteq> []"
proof -
  define p where "p = period_of r"
  define i where "i = p div 2"
  have p2: "2 \<le> p" and n2: "2 * p \<le> length (points data)"
    using gate gate_is_two_periods [of r] by (simp_all add: p_def)
  obtain result where res: "seasonal_decompose (points data) Additive p = Inr result"
    using seasonal_decompose_accepts_iff [of "points data" p] p2 n2 by blast
  then have dec: "decompose_series data Additive (Some p) = Inr result"
    by (simp add: decompose_series_def)
  have i: "i < length (points data)" using p2 n2 by (simp add: i_def)
  have inner: "\<not> (i < p div 2 \<or> length (points data) \<le> i + p div 2)"
    using p2 n2 by (simp add: i_def)
  note facts = additive_components [OF dec i]
  from facts inner obtain t where t: "snd (trend result ! i) = Some t" by auto
  with facts obtain c where c: "snd (seasonal result ! i) = Some c" by blast
  have "dropna (trend result) \<noteq> []"
    using dropna_nonempty [of i "trend result" t] facts i t by simp
  moreover have "dropna (seasonal result) \<noteq> []"
    using dropna_nonempty [of i "seasonal result" c] facts i c by simp
  moreover have "observed result = points data" using facts by simp
  ultimately show ?thesis using dec by (auto simp: decompose_pass_def p_def)
qed

lemma analysis_pass_below:
  assumes "length (points data) < min_buckets r"
  shows "analysis_pass r data = Inr (Not_enough_data (not_enough r))"
  using assms by (simp add: analysis_pass_def)

lemma analysis_pass_enough:
  assumes gate: "min_buckets r \<le> length (points data)"
  shows "\<exists>result peak low.
           decompose_pass r data = Inr result
         \<and> print_decomposition result (title_of r)
             = Inr \<lparr>report_title = title_of r,
                    low_sales = fst (identify_low_high_sales (points data) (1 / 4)),
                    high_sales = snd (identify_low_high_sales (points data) (1 / 4)),
                    insight = Some (r, peak, low)\<rparr>
         \<and> analysis_pass r data
             = Inr (Analysis \<lparr>report_title = title_of r,
                    low_sales = fst (identify_low_high_sales (points data) (1 / 4)),
                    high_sales = snd (identify_low_high_sales (points data) (1 / 4)),
                    insight = Some (r, peak, low)\<rparr>)
         \<and> is_argmax (if r = Seasonal then dropna (seasonal result)
                       else dropna (trend result)) peak
         \<and> is_argmin (if r = Seasonal then dropna (seasonal result)
                       else dropna (trend result)) low"
proof -
  obtain result where res: "decompose_pass r data = Inr result"
      "observed result = points data"
      "dropna (trend result) \<noteq> []" "dropna (seasonal result) \<noteq> []"
    using decompose_pass_accepts [OF gate] by blast
  have ne: "(if r = Seasonal then dropna (seasonal result) else dropna (trend result)) \<noteq> []"
    using res(3,4) by simp
  obtain peak low where
    pd: "print_decomposition result (title_of r)
          = Inr \<lparr>report_title = title_of r,
                 low_sales = fst (identify_low_high_sales (observed result) (1 / 4)),
                 high_sales = snd (identify_low_high_sales (observed result) (1 / 4)),
                 insight = Some (r, peak, low)\<rparr>"
    and ex: "is_argmax (if r = Seasonal then dropna (seasonal result)
                        else dropna (trend result)) peak"
            "is_argmin (if r = Seasonal then dropna (seasonal result)
                        else dropna (trend result)) low"
    using print_decomposition_title_of [OF ne] by blast
  have "analysis_pass r data
          = Inr (Analysis \<lparr>report_title = title_of r,
                 low_sales = fst (identify_low_high_sales (points data) (1 / 4)),
                 high_sales = snd (identify_low_high_sales (points data) (1 / 4)),
                 insight = Some (r, peak, low)\<rparr>)"
    using gate res(1) pd by (simp add: analysis_pass_def res(2))
  with res(1) pd ex show ?thesis unfolding res(2) by blast
qed

lemma analysis_pass_total: "\<exists>s. analysis_pass r data = Inr s"
proof (cases "min_buckets r \<le> length (points data)")
  case True
  then show ?thesis using analysis_pass_enough [of r data] by blast
next
  case False
  then show ?thesis using analysis_pass_below [of data r] by simp
qed

lemma analyze_data_summaries:
  "\<exists>s1 s2 s3 s4 s5.
      analysis_pass Hourly \<lparr>index_freq = Some Freq_H, points = resample_sum Freq_H pts\<rparr> = Inr s1
    \<and> analysis_pass Daily \<lparr>index_freq = Some Freq_D, points = resample_sum Freq_D pts\<rparr> = Inr s2
    \<and> analysis_pass Weekly \<lparr>index_freq = Some Freq_W, points = resample_sum Freq_W pts\<rparr> = Inr s3
    \<and> analysis_pass Monthly \<lparr>index_freq = Some Freq_M, points = resample_sum Freq_M pts\<rparr> = Inr s4
    \<and> analysis_pass Seasonal \<lparr>index_freq = Some Freq_M, points = resample_sum Freq_M pts\<rparr> = Inr s5
    \<and> analyze_data (Datetime_frame pts) = Inr [s1, s2, s3, s4, s5]"
proof -
  obtain s1 where s1: "analysis_pass Hourly
      \<lparr>index_freq = Some Freq_H, points = resample_sum Freq_H pts\<rparr> = Inr s1"
    using analysis_pass_total by blast
  obtain s2 where s2: "analysis_pass Daily
      \<lparr>index_freq = Some Freq_D, points = resample_sum Freq_D pts\<rparr> = Inr s2"
    using analysis_pass_total by blast
  obtain s3 where s3: "analysis_pass Weekly
      \<lparr>index_freq = Some Freq_W, points = resample_sum Freq_W pts\<rparr> = Inr s3"
    using analysis_pass_total by blast
  obtain s4 where s4: "analysis_pass Monthly
      \<lparr>index_freq = Some Freq_M, points = resample_sum Freq_M pts\<rparr> = Inr s4"
    using analysis_pass_total by blast
  obtain s5 where s5: "analysis_pass Seasonal
      \<lparr>index_freq = Some Freq_M, points = resample_sum Freq_M pts\<rparr> = Inr s5"
    using analysis_pass_total by blast
  have "analyze_data (Datetime_frame pts) = Inr [s1, s2, s3, s4, s5]"
    by (simp add: analyze_data_def s1 s2 s3 s4 s5)
  with s1 s2 s3 s4 s5 show ?thesis by blast
qed

lemma analyze_data_never_insufficient: "analyze_data df \<noteq> Inl InsufficientData"
proof (cases df)
  case (Datetime_frame pts)
  then show ?thesis using analyze_data_summaries [of pts] by auto
next
  case (Other_frame vs)
  then show ?thesis by (simp add: analyze_data_def)
qed

section \<open>The claims about the low and high sales periods\<close>

text \<open>
  Claim C5 at a series of three points with the threshold 0.25: the count
  \<open>floor (0.25 * 3)\<close> is 0, the low slice is empty, and the high slice is not the last
  0 points but all three points of the sorted series.
\<close>

theorem high_slice_with_zero_count:
  "\<lfloor>(1 / 4 :: rat) * of_nat (length [(0::int, 3::rat), (60, 1), (120, 2)])\<rfloor> = 0
   \<and> identify_low_high_sales [(0, 3), (60, 1), (120, 2)] (1 / 4)
       = ([], [(60, 1), (120, 2), (0, 3)])"
  by code_simp

text \<open>
  With the threshold 0.25 and 100 points both slices have 25 points: wherever the count
  is positive the slices are the first and the last \<open>k\<close> points.
\<close>

lemma quarter_of_hundred:
  assumes "length series = 100"
  shows "length (fst (identify_low_high_sales series (1 / 4))) = 25
       \<and> length (snd (identify_low_high_sales series (1 / 4))) = 25"
proof -
  have "py_int (round64 (of_nat (100::nat) * (1 / 4))) = int 25" by code_simp
  then have "py_int (round64 (of_nat (length series) * (1 / 4))) = int 25"
    unfolding assms .
  from low_high_positive_count [OF this] assms show ?thesis
    by (simp add: length_sort_values)
qed

text \<open>
  Claim C6, as amended. Whenever the count \<^verbatim>\<open>int(len(sorted_series) * threshold)\<close>,
  as the float arithmetic of the program computes it, is 0 (as it is for the default
  threshold 0.25 and fewer than four points), the low slice is empty: the program has no
  minimum of one point. For the empty series both slices are empty.
\<close>

theorem low_slice_empty_at_zero_count:
  "(py_int (round64 (of_nat (length series) * threshold)) = 0
      \<longrightarrow> fst (identify_low_high_sales series threshold) = [])
   \<and> (threshold = 1 / 4 \<and> length series < 4
      \<longrightarrow> fst (identify_low_high_sales series threshold) = [])
   \<and> (series = [] \<longrightarrow> identify_low_high_sales series threshold = ([], []))"
proof (intro conjI impI)
  assume "py_int (round64 (of_nat (length series) * threshold)) = 0"
  from low_high_zero_count [OF this]
  show "fst (identify_low_high_sales series threshold) = []" by simp
next
  assume "threshold = 1 / 4 \<and> length series < 4"
  then have "py_int (round64 (of_nat (length series) * threshold)) = 0
             \<or> (threshold = 1 / 4 \<and> length series < 4)" ..
  from zero_count_slices [OF this]
  show "fst (identify_low_high_sales series threshold) = []" by simp
next
  assume "series = []"
  then show "identify_low_high_sales series threshold = ([], [])"
    by (simp add: identify_low_high_sales_def sort_values_def slice_upto_def
          slice_from_def Let_def)
qed

theorem low_slice_empty_at_zero_count_witness:
  "py_int (round64 (of_nat (length [(0::int, 5::rat), (60, 4)]) * (1 / 8))) = 0
   \<and> fst (identify_low_high_sales [(0, 5), (60, 4)] (1 / 8)) = []
   \<and> length [(0::int, 5::rat)] < 4
   \<and> fst (identify_low_high_sales [(0, 5)] (1 / 4)) = []
   \<and> identify_low_high_sales [] (1 / 4) = ([], [])"
proof -
  have c: "py_int (round64 (of_nat (length [(0::int, 5::rat), (60, 4)]) * (1 / 8))) = 0"
    by code_simp
  from low_slice_empty_at_zero_count [of "[(0, 5), (60, 4)]" "1 / 8"]
    low_slice_empty_at_zero_count [of "[(0, 5)]" "1 / 4"]
    low_slice_empty_at_zero_count [of "[]" "1 / 4"] c
  show ?thesis by simp
qed

text \<open>
  A series of one point with the threshold 0.25 has \<open>1 \<le> n < 1 / threshold\<close>, and its
  low slice holds no point.
\<close>

theorem single_point_low_slice_is_empty:
  "1 \<le> length [(0::int, 5::rat)]
   \<and> of_nat (length [(0::int, 5::rat)]) < 1 / (1 / 4 :: rat)
   \<and> fst (identify_low_high_sales [(0, 5)] (1 / 4)) = []"
  by code_simp

section \<open>The claims about the summary\<close>

lemma insight_branch_find:
  "insight_branch title
     = find (\<lambda>r. sublist (title_of r) title) [Hourly, Daily, Weekly, Monthly, Seasonal]"
  by (simp add: insight_branch_def)

lemma print_decomposition_no_branch:
  assumes "insight_branch title = None"
  shows "print_decomposition result title
           = Inr \<lparr>report_title = title,
                  low_sales = fst (identify_low_high_sales (observed result) (1 / 4)),
                  high_sales = snd (identify_low_high_sales (observed result) (1 / 4)),
                  insight = None\<rparr>"
  using assms by (simp add: print_decomposition_def Let_def split_beta)

lemma print_decomposition_branch:
  assumes b: "insight_branch title = Some r"
    and ne: "(if r = Seasonal then dropna (seasonal result) else dropna (trend result)) \<noteq> []"
  shows "\<exists>peak low.
           print_decomposition result title
             = Inr \<lparr>report_title = title,
                    low_sales = fst (identify_low_high_sales (observed result) (1 / 4)),
                    high_sales = snd (identify_low_high_sales (observed result) (1 / 4)),
                    insight = Some (r, peak, low)\<rparr>
         \<and> is_argmax (if r = Seasonal then dropna (seasonal result)
                       else dropna (trend result)) peak
         \<and> is_argmin (if r = Seasonal then dropna (seasonal result)
                       else dropna (trend result)) low"
proof -
  obtain peak low where
    e: "extremes (if r = Seasonal then dropna (seasonal result) else dropna (trend result))
          = Inr (peak, low)"
    and a: "is_argmax (if r = Seasonal then dropna (seasonal result)
                        else dropna (trend result)) peak"
           "is_argmin (if r = Seasonal then dropna (seasonal result)
                        else dropna (trend result)) low"
    using extremes_nonempty [OF ne] by blast
  have "print_decomposition result title
          = Inr \<lparr>report_title = title,
                 low_sales = fst (identify_low_high_sales (observed result) (1 / 4)),
                 high_sales = snd (identify_low_high_sales (observed result) (1 / 4)),
                 insight = Some (r, peak, low)\<rparr>"
    using e by (simp add: print_decomposition_def b Let_def split_beta)
  with a show ?thesis by blast
qed

text \<open>
  Claim C3, as amended. For a decomposition result with a defined trend point and a
  defined seasonal point, \<^verbatim>\<open>print_decomposition\<close> chooses the insight by the text of the
  title, whatever the title is: the branch is the first of the five resolutions, in the
  order hourly, daily, weekly, monthly, seasonal, whose title occurs in the title given,
  and there is no insight when none occurs. The peak and the low of the insight are an
  argmax and an argmin of the defined trend points for the hourly, daily, weekly and
  monthly branches, and of the seasonal component for the seasonal branch. With the
  title of a resolution itself, the branch is that resolution.
\<close>

theorem insight_uses_trend_or_seasonal_extremes:
  assumes "dropna (trend result) \<noteq> []" and "dropna (seasonal result) \<noteq> []"
  shows "(\<exists>rep. print_decomposition result title = Inr rep
           \<and> report_title rep = title
           \<and> (case find (\<lambda>r. sublist (title_of r) title)
                       [Hourly, Daily, Weekly, Monthly, Seasonal] of
                 None \<Rightarrow> insight rep = None
               | Some r \<Rightarrow>
                   (\<exists>peak low. insight rep = Some (r, peak, low)
                      \<and> is_argmax (if r = Seasonal then dropna (seasonal result)
                                    else dropna (trend result)) peak
                      \<and> is_argmin (if r = Seasonal then dropna (seasonal result)
                                    else dropna (trend result)) low)))
       \<and> find (\<lambda>r. sublist (title_of r) (title_of r0))
            [Hourly, Daily, Weekly, Monthly, Seasonal] = Some r0"
proof
  show "find (\<lambda>r. sublist (title_of r) (title_of r0))
            [Hourly, Daily, Weekly, Monthly, Seasonal] = Some r0"
    using insight_branch_title_of [of r0] unfolding insight_branch_find .
  show "\<exists>rep. print_decomposition result title = Inr rep
           \<and> report_title rep = title
           \<and> (case find (\<lambda>r. sublist (title_of r) title)
                       [Hourly, Daily, Weekly, Monthly, Seasonal] of
                 None \<Rightarrow> insight rep = None
               | Some r \<Rightarrow>
                   (\<exists>peak low. insight rep = Some (r, peak, low)
                      \<and> is_argmax (if r = Seasonal then dropna (seasonal result)
                                    else dropna (trend result)) peak
                      \<and> is_argmin (if r = Seasonal then dropna (seasonal result)
                                    else dropna (trend result)) low))"
  proof (cases "insight_branch title")
    case None
    from print_decomposition_no_branch [OF None, of result] None
    show ?thesis unfolding insight_branch_find by simp
  next
    case (Some r)
    have ne: "(if r = Seasonal then dropna (seasonal result) else dropna (trend result)) \<noteq> []"
      using assms by simp
    from print_decomposition_branch [OF Some ne] Some
    show ?thesis unfolding insight_branch_find by auto
  qed
qed

theorem insight_uses_trend_or_seasonal_extremes_witness:
  "dropna [(0, None), (1, Some (9 / 4)), (2, Some (13 / 4)), (3, None)] \<noteq> []
   \<and> dropna [(0, Some (- 1)), (1, Some 1), (2, Some (- 1)), (3, Some 1)] \<noteq> []
   \<and> (\<exists>rep peak low.
         print_decomposition
           \<lparr>observed = [(0, 1), (1, 3), (2, 2), (3, 6)],
            trend = [(0, None), (1, Some (9 / 4)), (2, Some (13 / 4)), (3, None)],
            seasonal = [(0, Some (- 1)), (1, Some 1), (2, Some (- 1)), (3, Some 1)],
            resid = [(0, None), (1, Some (- (1 / 4))), (2, Some (- (1 / 4))), (3, None)]\<rparr>
           ''Report of the Monthly Analysis'' = Inr rep
       \<and> insight rep = Some (Monthly, peak, low)
       \<and> is_argmax [(1, 9 / 4), (2, 13 / 4)] peak
       \<and> is_argmin [(1, 9 / 4), (2, 13 / 4)] low)"
proof -
  let ?r = "\<lparr>observed = [(0, 1), (1, 3), (2, 2), (3, 6)],
            trend = [(0, None), (1, Some (9 / 4)), (2, Some (13 / 4)), (3, None)],
            seasonal = [(0, Some (- 1)), (1, Some 1), (2, Some (- 1)), (3, Some 1)],
            resid = [(0, None), (1, Some (- (1 / 4))), (2, Some (- (1 / 4))), (3, None)]\<rparr>"
  have t: "dropna (trend ?r) \<noteq> []" and s: "dropna (seasonal ?r) \<noteq> []" by simp_all
  have f: "find (\<lambda>r. sublist (title_of r) ''Report of the Monthly Analysis'')
             [Hourly, Daily, Weekly, Monthly, Seasonal] = Some Monthly"
    by code_simp
  from insight_uses_trend_or_seasonal_extremes
         [OF t s, of "''Report of the Monthly Analysis''" Monthly]
  show ?thesis unfolding f by auto
qed

text \<open>
  A title that names the seasonal analysis and also contains the words of the hourly
  title gets the hourly insight, with the extremes of the trend; the seasonal title
  alone gets the seasonal insight, with the extremes of the seasonal component.
\<close>

theorem title_text_selects_the_branch:
  "sublist (title_of Seasonal) ''Seasonal Analysis (Hourly Analysis data)''
   \<and> print_decomposition
         \<lparr>observed = [(0, 1), (1, 3), (2, 2), (3, 6)],
          trend = [(0, None), (1, Some (9 / 4)), (2, Some (13 / 4)), (3, None)],
          seasonal = [(0, Some (- 1)), (1, Some 1), (2, Some (- 1)), (3, Some 1)],
          resid = [(0, None), (1, Some (- (1 / 4))), (2, Some (- (1 / 4))), (3, None)]\<rparr>
         ''Seasonal Analysis (Hourly Analysis data)''
       = Inr \<lparr>report_title = ''Seasonal Analysis (Hourly Analysis data)'',
              low_sales = [(0, 1)], high_sales = [(3, 6)],
              insight = Some (Hourly, 2, 1)\<rparr>
   \<and> print_decomposition
         \<lparr>observed = [(0, 1), (1, 3), (2, 2), (3, 6)],
          trend = [(0, None), (1, Some (9 / 4)), (2, Some (13 / 4)), (3, None)],
          seasonal = [(0, Some (- 1)), (1, Some 1), (2, Some (- 1)), (3, Some 1)],
          resid = [(0, None), (1, Some (- (1 / 4))), (2, Some (- (1 / 4))), (3, None)]\<rparr>
         (title_of Seasonal)
       = Inr \<lparr>report_title = ''Seasonal Analysis'',
              low_sales = [(0, 1)], high_sales = [(3, 6)],
              insight = Some (Seasonal, 1, 0)\<rparr>"
  by code_simp

section \<open>The claims about the analysis\<close>

text \<open>
  Claim C2. Whenever the number of resampled rows reaches the least number required for
  a resolution (48, 14, 8, 24, 24), the series has two full periods of the period of
  that resolution (24, 7, 4, 12, 12), which is at least 2. The decomposition of a pass
  fails for want of data exactly when the series is shorter than two periods, so neither
  a pass nor the whole analysis ever ends with that failure.
\<close>

theorem gate_implies_decomposer_precondition:
  "(min_buckets r \<le> length (points data)
      \<longrightarrow> 2 \<le> period_of r \<and> 2 * period_of r \<le> length (points data)
          \<and> (\<exists>result. decompose_pass r data = Inr result))
   \<and> (decompose_pass r data = Inl InsufficientData
        \<longleftrightarrow> length (points data) < 2 * period_of r)
   \<and> analysis_pass r data \<noteq> Inl InsufficientData
   \<and> analyze_data df \<noteq> Inl InsufficientData"
proof (intro conjI impI)
  assume gate: "min_buckets r \<le> length (points data)"
  show "2 \<le> period_of r" using gate_is_two_periods [of r] by simp
  show "2 * period_of r \<le> length (points data)"
    using gate gate_is_two_periods [of r] by simp
  show "\<exists>result. decompose_pass r data = Inr result"
    using decompose_pass_accepts [OF gate] by blast
next
  show "decompose_pass r data = Inl InsufficientData
          \<longleftrightarrow> length (points data) < 2 * period_of r"
    by (rule decompose_pass_insufficient_iff)
  show "analysis_pass r data \<noteq> Inl InsufficientData"
    using analysis_pass_total [of r data] by auto
  show "analyze_data df \<noteq> Inl InsufficientData"
    by (rule analyze_data_never_insufficient)
qed

theorem gate_implies_decomposer_precondition_witness:
  "min_buckets Weekly
     \<le> length (points \<lparr>index_freq = Some Freq_W,
          points = [(0, 4), (1, 6), (2, 5), (3, 9), (4, 4), (5, 7), (6, 5), (7, 8)]\<rparr>)
   \<and> 2 * period_of Weekly
     \<le> length (points \<lparr>index_freq = Some Freq_W,
          points = [(0, 4), (1, 6), (2, 5), (3, 9), (4, 4), (5, 7), (6, 5), (7, 8)]\<rparr>)
   \<and> (\<exists>result. decompose_pass Weekly \<lparr>index_freq = Some Freq_W,
          points = [(0, 4), (1, 6), (2, 5), (3, 9), (4, 4), (5, 7), (6, 5), (7, 8)]\<rparr>
        = Inr result)
   \<and> analyze_data (Other_frame [1, 2]) \<noteq> Inl InsufficientData"
  using gate_implies_decomposer_precondition
    [of Weekly "\<lparr>index_freq = Some Freq_W,
          points = [(0, 4), (1, 6), (2, 5), (3, 9), (4, 4), (5, 7), (6, 5), (7, 8)]\<rparr>"
        "Other_frame [1, 2]"]
  by simp

text \<open>
  Claim C4. On a frame with a datetime index the analysis returns five summaries, one
  per resolution and each the outcome of the pass of its own resolution on its own
  resampled rows, so that a pass with too few rows leaves the other passes as they are.
  With exactly 13 daily rows the daily summary is the line
  \<^verbatim>\<open>Not enough data for daily analysis\<close> and nothing is decomposed; with exactly 14
  daily rows the daily rows are decomposed and the daily summary is the report of that
  decomposition.
\<close>

theorem daily_gate_and_independent_passes:
  "\<exists>hourly_data daily_data weekly_data monthly_data s1 s2 s3 s4 s5.
      resample_data (Datetime_frame pts) Freq_H = Inr hourly_data
    \<and> resample_data (Datetime_frame pts) Freq_D = Inr daily_data
    \<and> resample_data (Datetime_frame pts) Freq_W = Inr weekly_data
    \<and> resample_data (Datetime_frame pts) Freq_M = Inr monthly_data
    \<and> analysis_pass Hourly hourly_data = Inr s1
    \<and> analysis_pass Daily daily_data = Inr s2
    \<and> analysis_pass Weekly weekly_data = Inr s3
    \<and> analysis_pass Monthly monthly_data = Inr s4
    \<and> analysis_pass Seasonal monthly_data = Inr s5
    \<and> analyze_data (Datetime_frame pts) = Inr [s1, s2, s3, s4, s5]
    \<and> (length (points daily_data) = 13
          \<longrightarrow> s2 = Not_enough_data ''Not enough data for daily analysis'')
    \<and> (length (points daily_data) = 14
          \<longrightarrow> (\<exists>result rep. decompose_pass Daily daily_data = Inr result
                 \<and> print_decomposition result ''Daily Analysis'' = Inr rep
                 \<and> s2 = Analysis rep))"
proof -
  let ?h = "\<lparr>index_freq = Some Freq_H, points = resample_sum Freq_H pts\<rparr>"
  let ?d = "\<lparr>index_freq = Some Freq_D, points = resample_sum Freq_D pts\<rparr>"
  let ?w = "\<lparr>index_freq = Some Freq_W, points = resample_sum Freq_W pts\<rparr>"
  let ?m = "\<lparr>index_freq = Some Freq_M, points = resample_sum Freq_M pts\<rparr>"
  obtain s1 s2 s3 s4 s5 where
    s: "analysis_pass Hourly ?h = Inr s1" "analysis_pass Daily ?d = Inr s2"
       "analysis_pass Weekly ?w = Inr s3" "analysis_pass Monthly ?m = Inr s4"
       "analysis_pass Seasonal ?m = Inr s5"
       "analyze_data (Datetime_frame pts) = Inr [s1, s2, s3, s4, s5]"
    using analyze_data_summaries [of pts] by blast
  have below: "s2 = Not_enough_data ''Not enough data for daily analysis''"
    if len: "length (points ?d) = 13"
  proof -
    have "length (points ?d) < min_buckets Daily" unfolding len by simp
    from analysis_pass_below [OF this] s(2) show ?thesis by simp
  qed
  have enough: "\<exists>result rep. decompose_pass Daily ?d = Inr result
                 \<and> print_decomposition result ''Daily Analysis'' = Inr rep
                 \<and> s2 = Analysis rep"
    if len: "length (points ?d) = 14"
  proof -
    have "min_buckets Daily \<le> length (points ?d)" unfolding len by simp
    from analysis_pass_enough [OF this]
    obtain result rep where
      "decompose_pass Daily ?d = Inr result"
      "print_decomposition result (title_of Daily) = Inr rep"
      "analysis_pass Daily ?d = Inr (Analysis rep)"
      by blast
    moreover have "title_of Daily = ''Daily Analysis''" by simp
    ultimately show ?thesis using s(2) by auto
  qed
  have all: "resample_data (Datetime_frame pts) Freq_H = Inr ?h
    \<and> resample_data (Datetime_frame pts) Freq_D = Inr ?d
    \<and> resample_data (Datetime_frame pts) Freq_W = Inr ?w
    \<and> resample_data (Datetime_frame pts) Freq_M = Inr ?m
    \<and> analysis_pass Hourly ?h = Inr s1
    \<and> analysis_pass Daily ?d = Inr s2
    \<and> analysis_pass Weekly ?w = Inr s3
    \<and> analysis_pass Monthly ?m = Inr s4
    \<and> analysis_pass Seasonal ?m = Inr s5
    \<and> analyze_data (Datetime_frame pts) = Inr [s1, s2, s3, s4, s5]
    \<and> (length (points ?d) = 13
          \<longrightarrow> s2 = Not_enough_data ''Not enough data for daily analysis'')
    \<and> (length (points ?d) = 14
          \<longrightarrow> (\<exists>result rep. decompose_pass Daily ?d = Inr result
                 \<and> print_decomposition result ''Daily Analysis'' = Inr rep
                 \<and> s2 = Analysis rep))"
  proof (intro conjI impI)
    show "resample_data (Datetime_frame pts) Freq_H = Inr ?h" by simp
    show "resample_data (Datetime_frame pts) Freq_D = Inr ?d" by simp
    show "resample_data (Datetime_frame pts) Freq_W = Inr ?w" by simp
    show "resample_data (Datetime_frame pts) Freq_M = Inr ?m" by simp
    show "analysis_pass Hourly ?h = Inr s1" by (rule s(1))
    show "analysis_pass Daily ?d = Inr s2" by (rule s(2))
    show "analysis_pass Weekly ?w = Inr s3" by (rule s(3))
    show "analysis_pass Monthly ?m = Inr s4" by (rule s(4))
    show "analysis_pass Seasonal ?m = Inr s5" by (rule s(5))
    show "analyze_data (Datetime_frame pts) = Inr [s1, s2, s3, s4, s5]" by (rule s(6))
    show "s2 = Not_enough_data ''Not enough data for daily analysis''"
      if "length (points ?d) = 13" using below [OF that] .
    show "\<exists>result rep. decompose_pass Daily ?d = Inr result
                 \<and> print_decomposition result ''Daily Analysis'' = Inr rep
                 \<and> s2 = Analysis rep"
      if "length (points ?d) = 14" using enough [OF that] .
  qed
  show ?thesis by (intro exI, rule all)
qed

theorem daily_gate_and_independent_passes_witness:
  "length (resample_sum Freq_D [(0, 1), (17280, 2)]) = 13
   \<and> (\<exists>ss. analyze_data (Datetime_frame [(0, 1), (17280, 2)]) = Inr ss
          \<and> length ss = 5
          \<and> ss ! 1 = Not_enough_data ''Not enough data for daily analysis'')
   \<and> length (resample_sum Freq_D [(0, 1), (18720, 2)]) = 14
   \<and> (\<exists>ss rep. analyze_data (Datetime_frame [(0, 1), (18720, 2)]) = Inr ss
          \<and> length ss = 5
          \<and> ss ! 1 = Analysis rep)"
proof -
  have l13: "length (resample_sum Freq_D [(0, 1), (17280, 2)]) = 13" by code_simp
  have l14: "length (resample_sum Freq_D [(0, 1), (18720, 2)]) = 14" by code_simp
  have a: "\<exists>ss. analyze_data (Datetime_frame [(0, 1), (17280, 2)]) = Inr ss
          \<and> length ss = 5
          \<and> ss ! 1 = Not_enough_data ''Not enough data for daily analysis''"
    using daily_gate_and_independent_passes [of "[(0, 1), (17280, 2)]"] l13 by auto
  have b: "\<exists>ss rep. analyze_data (Datetime_frame [(0, 1), (18720, 2)]) = Inr ss
          \<and> length ss = 5
          \<and> ss ! 1 = Analysis rep"
    using daily_gate_and_independent_passes [of "[(0, 1), (18720, 2)]"] l14 by auto
  from l13 a l14 b show ?thesis by blast
qed

text \<open>
  Claim C9. When the monthly rows pass the gate of 24 rows, the seasonal pass decomposes
  the monthly rows that the monthly pass decomposed, with the same period 12 and the
  same additive model; the two decomposition results are the same. The two reports list
  the same low and high sales periods; the monthly report names an argmax and an argmin
  of the defined trend points, the seasonal report an argmax and an argmin of the
  seasonal component.
\<close>

theorem seasonal_pass_repeats_monthly_decomposition:
  assumes monthly: "resample_data df Freq_M = Inr monthly_data"
    and gate: "min_buckets Monthly \<le> length (points monthly_data)"
  shows "decompose_pass Seasonal monthly_data = decompose_pass Monthly monthly_data
       \<and> (\<exists>result monthly_report seasonal_report peak_m low_m peak_s low_s s1 s2 s3.
             decompose_pass Monthly monthly_data = Inr result
           \<and> print_decomposition result ''Monthly Analysis'' = Inr monthly_report
           \<and> print_decomposition result ''Seasonal Analysis'' = Inr seasonal_report
           \<and> analyze_data df
               = Inr [s1, s2, s3, Analysis monthly_report, Analysis seasonal_report]
           \<and> low_sales seasonal_report = low_sales monthly_report
           \<and> high_sales seasonal_report = high_sales monthly_report
           \<and> insight monthly_report = Some (Monthly, peak_m, low_m)
           \<and> is_argmax (dropna (trend result)) peak_m
           \<and> is_argmin (dropna (trend result)) low_m
           \<and> insight seasonal_report = Some (Seasonal, peak_s, low_s)
           \<and> is_argmax (dropna (seasonal result)) peak_s
           \<and> is_argmin (dropna (seasonal result)) low_s)"
proof
  show same: "decompose_pass Seasonal monthly_data = decompose_pass Monthly monthly_data"
    by (simp add: decompose_pass_def)
  obtain pts where df: "df = Datetime_frame pts"
    using monthly by (cases df) auto
  have md: "monthly_data = \<lparr>index_freq = Some Freq_M, points = resample_sum Freq_M pts\<rparr>"
    using monthly df by simp
  have gate_s: "min_buckets Seasonal \<le> length (points monthly_data)"
    using gate by simp
  obtain result peak_m low_m where
    m: "decompose_pass Monthly monthly_data = Inr result"
       "print_decomposition result (title_of Monthly)
          = Inr \<lparr>report_title = title_of Monthly,
                 low_sales = fst (identify_low_high_sales (points monthly_data) (1 / 4)),
                 high_sales = snd (identify_low_high_sales (points monthly_data) (1 / 4)),
                 insight = Some (Monthly, peak_m, low_m)\<rparr>"
       "analysis_pass Monthly monthly_data
          = Inr (Analysis \<lparr>report_title = title_of Monthly,
                 low_sales = fst (identify_low_high_sales (points monthly_data) (1 / 4)),
                 high_sales = snd (identify_low_high_sales (points monthly_data) (1 / 4)),
                 insight = Some (Monthly, peak_m, low_m)\<rparr>)"
       "is_argmax (dropna (trend result)) peak_m"
       "is_argmin (dropna (trend result)) low_m"
    using analysis_pass_enough [OF gate] by auto
  obtain result' peak_s low_s where
    s: "decompose_pass Seasonal monthly_data = Inr result'"
       "print_decomposition result' (title_of Seasonal)
          = Inr \<lparr>report_title = title_of Seasonal,
                 low_sales = fst (identify_low_high_sales (points monthly_data) (1 / 4)),
                 high_sales = snd (identify_low_high_sales (points monthly_data) (1 / 4)),
                 insight = Some (Seasonal, peak_s, low_s)\<rparr>"
       "analysis_pass Seasonal monthly_data
          = Inr (Analysis \<lparr>report_title = title_of Seasonal,
                 low_sales = fst (identify_low_high_sales (points monthly_data) (1 / 4)),
                 high_sales = snd (identify_low_high_sales (points monthly_data) (1 / 4)),
                 insight = Some (Seasonal, peak_s, low_s)\<rparr>)"
       "is_argmax (dropna (seasonal result')) peak_s"
       "is_argmin (dropna (seasonal result')) low_s"
    using analysis_pass_enough [OF gate_s] by auto
  have eq: "result' = result" using s(1) m(1) same by simp
  obtain s1 s2 s3 s4 s5 where
    a: "analysis_pass Monthly monthly_data = Inr s4"
       "analysis_pass Seasonal monthly_data = Inr s5"
       "analyze_data df = Inr [s1, s2, s3, s4, s5]"
    using analyze_data_summaries [of pts] unfolding df md by blast
  let ?mr = "\<lparr>report_title = title_of Monthly,
                 low_sales = fst (identify_low_high_sales (points monthly_data) (1 / 4)),
                 high_sales = snd (identify_low_high_sales (points monthly_data) (1 / 4)),
                 insight = Some (Monthly, peak_m, low_m)\<rparr>"
  let ?sr = "\<lparr>report_title = title_of Seasonal,
                 low_sales = fst (identify_low_high_sales (points monthly_data) (1 / 4)),
                 high_sales = snd (identify_low_high_sales (points monthly_data) (1 / 4)),
                 insight = Some (Seasonal, peak_s, low_s)\<rparr>"
  have s45: "s4 = Analysis ?mr" "s5 = Analysis ?sr"
    using a(1,2) m(3) s(3) by simp_all
  have all: "decompose_pass Monthly monthly_data = Inr result
           \<and> print_decomposition result ''Monthly Analysis'' = Inr ?mr
           \<and> print_decomposition result ''Seasonal Analysis'' = Inr ?sr
           \<and> analyze_data df = Inr [s1, s2, s3, Analysis ?mr, Analysis ?sr]
           \<and> low_sales ?sr = low_sales ?mr
           \<and> high_sales ?sr = high_sales ?mr
           \<and> insight ?mr = Some (Monthly, peak_m, low_m)
           \<and> is_argmax (dropna (trend result)) peak_m
           \<and> is_argmin (dropna (trend result)) low_m
           \<and> insight ?sr = Some (Seasonal, peak_s, low_s)
           \<and> is_argmax (dropna (seasonal result)) peak_s
           \<and> is_argmin (dropna (seasonal result)) low_s"
  proof (intro conjI)
    show "decompose_pass Monthly monthly_data = Inr result" by (rule m(1))
    show "print_decomposition result ''Monthly Analysis'' = Inr ?mr"
      using m(2) by simp
    show "print_decomposition result ''Seasonal Analysis'' = Inr ?sr"
      using s(2) eq by simp
    show "analyze_data df = Inr [s1, s2, s3, Analysis ?mr, Analysis ?sr]"
      using a(3) s45 by simp
    show "is_argmax (dropna (trend result)) peak_m" by (rule m(4))
    show "is_argmin (dropna (trend result)) low_m" by (rule m(5))
    show "is_argmax (dropna (seasonal result)) peak_s" using s(4) eq by simp
    show "is_argmin (dropna (seasonal result)) low_s" using s(5) eq by simp
  qed simp_all
  show "\<exists>result monthly_report seasonal_report peak_m low_m peak_s low_s s1 s2 s3.
             decompose_pass Monthly monthly_data = Inr result
           \<and> print_decomposition result ''Monthly Analysis'' = Inr monthly_report
           \<and> print_decomposition result ''Seasonal Analysis'' = Inr seasonal_report
           \<and> analyze_data df
               = Inr [s1, s2, s3, Analysis monthly_report, Analysis seasonal_report]
           \<and> low_sales seasonal_report = low_sales monthly_report
           \<and> high_sales seasonal_report = high_sales monthly_report
           \<and> insight monthly_report = Some (Monthly, peak_m, low_m)
           \<and> is_argmax (dropna (trend result)) peak_m
           \<and> is_argmin (dropna (trend result)) low_m
           \<and> insight seasonal_report = Some (Seasonal, peak_s, low_s)
           \<and> is_argmax (dropna (seasonal result)) peak_s
           \<and> is_argmin (dropna (seasonal result)) low_s"
    by (intro exI, rule all)
qed

theorem seasonal_pass_repeats_monthly_decomposition_witness:
  "resample_data (Datetime_frame [(0, 3), (1008000, 5)]) Freq_M
     = Inr \<lparr>index_freq = Some Freq_M, points = resample_sum Freq_M [(0, 3), (1008000, 5)]\<rparr>
   \<and> min_buckets Monthly \<le> length (resample_sum Freq_M [(0, 3), (1008000, 5)])
   \<and> decompose_pass Seasonal
         \<lparr>index_freq = Some Freq_M, points = resample_sum Freq_M [(0, 3), (1008000, 5)]\<rparr>
       = decompose_pass Monthly
         \<lparr>index_freq = Some Freq_M, points = resample_sum Freq_M [(0, 3), (1008000, 5)]\<rparr>
   \<and> (\<exists>result. decompose_pass Monthly
         \<lparr>index_freq = Some Freq_M, points = resample_sum Freq_M [(0, 3), (1008000, 5)]\<rparr>
        = Inr result)"
proof -
  let ?m = "\<lparr>index_freq = Some Freq_M, points = resample_sum Freq_M [(0, 3), (1008000, 5)]\<rparr>"
  have r: "resample_data (Datetime_frame [(0, 3), (1008000, 5)]) Freq_M = Inr ?m" by simp
  have "length (resample_sum Freq_M [(0, 3), (1008000, 5)]) = 24" by code_simp
  then have g: "min_buckets Monthly \<le> length (points ?m)" by simp
  from seasonal_pass_repeats_monthly_decomposition [OF r g] r g show ?thesis by auto
qed

end
